theory Spec2Isabelle
  imports Main "HOL-Library.Sublist"
begin

text \<open>
  A model of the sitemap pipeline of the repository: the page extractors that turn a
  sitemap document into page entries, the walks over a sitemap index, the BI classifier,
  and the reconciliation that replaces a company's stored pages. Each Python function is
  a HOL function of the same name; loops are recursive functions over the list they
  iterate; an exception is a \<open>None\<close> or a flag in the result; the database and the
  network, which the code reaches through library calls, are explicit arguments. The
  definitions come first, the properties after them.
\<close>

section \<open>Python string primitives\<close>

text \<open>
  Python \<^verbatim>\<open>str\<close> values are modelled as \<^typ>\<open>string\<close>: a character is a code point
  below 256. \<^verbatim>\<open>s.lower()\<close> maps the capital letters among them, \<^verbatim>\<open>A-Z\<close> and the
  accented capitals \<^verbatim>\<open>0xC0-0xDE\<close> without the multiplication sign, to their small
  letters, and leaves every other character as it is.
\<close>

definition upper_latin :: string where
  "upper_latin =
     [CHR 0xC0, CHR 0xC1, CHR 0xC2, CHR 0xC3, CHR 0xC4, CHR 0xC5,
      CHR 0xC6, CHR 0xC7, CHR 0xC8, CHR 0xC9, CHR 0xCA, CHR 0xCB,
      CHR 0xCC, CHR 0xCD, CHR 0xCE, CHR 0xCF, CHR 0xD0, CHR 0xD1,
      CHR 0xD2, CHR 0xD3, CHR 0xD4, CHR 0xD5, CHR 0xD6, CHR 0xD8,
      CHR 0xD9, CHR 0xDA, CHR 0xDB, CHR 0xDC, CHR 0xDD, CHR 0xDE]"

definition lower_latin :: string where
  "lower_latin =
     [CHR 0xE0, CHR 0xE1, CHR 0xE2, CHR 0xE3, CHR 0xE4, CHR 0xE5,
      CHR 0xE6, CHR 0xE7, CHR 0xE8, CHR 0xE9, CHR 0xEA, CHR 0xEB,
      CHR 0xEC, CHR 0xED, CHR 0xEE, CHR 0xEF, CHR 0xF0, CHR 0xF1,
      CHR 0xF2, CHR 0xF3, CHR 0xF4, CHR 0xF5, CHR 0xF6, CHR 0xF8,
      CHR 0xF9, CHR 0xFA, CHR 0xFB, CHR 0xFC, CHR 0xFD, CHR 0xFE]"

definition lower_char :: "char \<Rightarrow> char" where
  "lower_char c =
     (case map_of (zip (''ABCDEFGHIJKLMNOPQRSTUVWXYZ'' @ upper_latin)
                       (''abcdefghijklmnopqrstuvwxyz'' @ lower_latin)) c of
        Some d \<Rightarrow> d
      | None \<Rightarrow> c)"

definition lower :: "string \<Rightarrow> string" where
  "lower s = map lower_char s"

text \<open>\<^verbatim>\<open>s.startswith(p)\<close>\<close>

fun startswith :: "string \<Rightarrow> string \<Rightarrow> bool" where
  "startswith s [] = True"
| "startswith [] (p # ps) = False"
| "startswith (c # s) (p # ps) = (c = p \<and> startswith s ps)"

text \<open>\<^verbatim>\<open>p in s\<close> on strings: \<open>p\<close> occurs in \<open>s\<close> as a contiguous substring.\<close>

fun str_in :: "string \<Rightarrow> string \<Rightarrow> bool" where
  "str_in p [] = (p = [])"
| "str_in p (c # s) = (startswith (c # s) p \<or> str_in p s)"

text \<open>\<^verbatim>\<open>s.endswith(p)\<close>\<close>

definition endswith :: "string \<Rightarrow> string \<Rightarrow> bool" where
  "endswith s p = startswith (rev s) (rev p)"

text \<open>
  \<^verbatim>\<open>s.strip()\<close> removes the white space at both ends: tab, line feed, vertical tab, form
  feed, carriage return, the four separators \<^verbatim>\<open>0x1c\<close> to \<^verbatim>\<open>0x1f\<close>, the space, the
  next-line character \<^verbatim>\<open>0x85\<close> and the no-break space \<^verbatim>\<open>0xa0\<close>.
  \<^verbatim>\<open>s.strip('/')\<close> removes the characters given.
\<close>

definition is_space :: "char \<Rightarrow> bool" where
  "is_space c \<longleftrightarrow>
     c \<in> set [CHR 0x09, CHR 0x0A, CHR 0x0B, CHR 0x0C, CHR 0x0D,
                CHR 0x1C, CHR 0x1D, CHR 0x1E, CHR 0x1F, CHR 0x20, CHR 0x85, CHR 0xA0]"

definition strip_chars :: "(char \<Rightarrow> bool) \<Rightarrow> string \<Rightarrow> string" where
  "strip_chars P s = rev (dropWhile P (rev (dropWhile P s)))"

definition strip :: "string \<Rightarrow> string" where
  "strip s = strip_chars is_space s"

text \<open>\<^verbatim>\<open>s.split(sep)\<close> for a separator of one character: it always returns a field.\<close>

fun split_on :: "char \<Rightarrow> string \<Rightarrow> string list" where
  "split_on sep [] = [[]]"
| "split_on sep (c # s) =
     (if c = sep then [] # split_on sep s
      else (case split_on sep s of
              [] \<Rightarrow> [[c]]
            | field # fields \<Rightarrow> (c # field) # fields))"

text \<open>\<^verbatim>\<open>[x for x in s.split('/') if x]\<close>\<close>

definition segments_of :: "string \<Rightarrow> string list" where
  "segments_of s = filter (\<lambda>x. x \<noteq> []) (split_on CHR ''/'' s)"

text \<open>
  \<^verbatim>\<open>s.replace(old, new)\<close>: the occurrences of \<open>old\<close> are replaced from the left, without
  overlap. \<open>replace_from\<close> walks the string; its counter is the number of characters of
  an occurrence just replaced that are still to be passed over. For the empty \<open>old\<close>
  Python puts \<open>new\<close> before every character and at the end.
\<close>

fun replace_from :: "string \<Rightarrow> string \<Rightarrow> nat \<Rightarrow> string \<Rightarrow> string" where
  "replace_from old new k [] = []"
| "replace_from old new (Suc k) (c # s) = replace_from old new k s"
| "replace_from old new 0 (c # s) =
     (if startswith (c # s) old then new @ replace_from old new (length old - 1) s
      else c # replace_from old new 0 s)"

definition replace :: "string \<Rightarrow> string \<Rightarrow> string \<Rightarrow> string" where
  "replace old new s =
     (if old = [] then new @ concat (map (\<lambda>c. c # new) s) else replace_from old new 0 s)"

text \<open>
  \<^verbatim>\<open>s.title()\<close>: a cased character that follows a cased character is lower-cased, any
  other cased character is put in title case, and the other characters are kept. The
  title case of a small letter is its capital; that of the sharp s \<^verbatim>\<open>0xDF\<close> is
  \<^verbatim>\<open>Ss\<close>. The micro sign \<^verbatim>\<open>0xB5\<close> and \<^verbatim>\<open>0xFF\<close>, whose capitals lie beyond 255, are
  kept.
\<close>

definition upper_char :: "char \<Rightarrow> char" where
  "upper_char c =
     (case map_of (zip (''abcdefghijklmnopqrstuvwxyz'' @ lower_latin)
                       (''ABCDEFGHIJKLMNOPQRSTUVWXYZ'' @ upper_latin)) c of
        Some d \<Rightarrow> d
      | None \<Rightarrow> c)"

definition title_char :: "char \<Rightarrow> string" where
  "title_char c = (if c = CHR 0xDF then ''Ss'' else [upper_char c])"

definition is_cased :: "char \<Rightarrow> bool" where
  "is_cased c \<longleftrightarrow>
     c \<in> set (''abcdefghijklmnopqrstuvwxyzABCDEFGHIJKLMNOPQRSTUVWXYZ''
               @ [CHR 0xAA, CHR 0xB5, CHR 0xBA, CHR 0xDF, CHR 0xFF] @ upper_latin @ lower_latin)"

fun title_from :: "bool \<Rightarrow> string \<Rightarrow> string" where
  "title_from previous_is_cased [] = []"
| "title_from previous_is_cased (c # s) =
     (if is_cased c
      then (if previous_is_cased then [lower_char c] else title_char c) @ title_from True s
      else c # title_from False s)"

definition title_case :: "string \<Rightarrow> string" where
  "title_case s = title_from False s"

section \<open>The BI classifier (bi\_page\_classifier.py)\<close>

record config =
  tier :: int
  intelligence :: string
  url_patterns :: "string list"
  title_patterns :: "string list"

text \<open>
  \<^verbatim>\<open>BI_TAXONOMY\<close> is a dict literal; iterating \<^verbatim>\<open>BI_TAXONOMY.items()\<close> follows the order
  in which the keys are written, so the dict is an association list in that order.
\<close>

definition BI_TAXONOMY :: "(string \<times> config) list" where
  "BI_TAXONOMY =
   [(''careers'', \<lparr>tier = 1,
       intelligence = ''Hiring activity, growth indicators, business expansion signals'',
       url_patterns = [''/careers'', ''/jobs'', ''/employment'', ''/opportunities'', ''/hiring'',
                       ''/work-with-us'', ''/join-us''],
       title_patterns = [''careers'', ''jobs'', ''employment'', ''opportunities'', ''join us'',
                         ''work with us'', ''hiring'', ''open positions'']\<rparr>),
    (''services'', \<lparr>tier = 1,
       intelligence = ''Revenue streams, core competencies, competitive positioning'',
       url_patterns = [''/services'', ''/solutions'', ''/offerings'', ''/capabilities'',
                       ''/expertise'', ''/what-we-do''],
       title_patterns = [''services'', ''solutions'', ''what we do'', ''capabilities'',
                         ''offerings'', ''expertise'']\<rparr>),
    (''products'', \<lparr>tier = 1,
       intelligence = ''Product portfolio, market focus, innovation pipeline'',
       url_patterns = [''/products'', ''/catalog'', ''/portfolio'', ''/brands'', ''/shop''],
       title_patterns = [''products'', ''catalog'', ''portfolio'', ''brands'', ''offerings'',
                         ''shop'']\<rparr>),
    (''about'', \<lparr>tier = 1,
       intelligence = ''Mission, history, size, business model, values'',
       url_patterns = [''/about'', ''/company'', ''/who-we-are'', ''/overview'', ''/our-story''],
       title_patterns = [''about'', ''company'', ''who we are'', ''overview'', ''our story'',
                         ''about us'']\<rparr>),
    (''team'', \<lparr>tier = 2,
       intelligence = ''Leadership depth, expertise, company culture, decision makers'',
       url_patterns = [''/team'', ''/leadership'', ''/people'', ''/staff'', ''/management'',
                       ''/executives'', ''/board'', ''/founders''],
       title_patterns = [''team'', ''leadership'', ''people'', ''staff'', ''management'',
                         ''executives'', ''our team'', ''meet the team'', ''board of directors'',
                         ''founders'']\<rparr>),
    (''news'', \<lparr>tier = 2,
       intelligence = ''Market activity, thought leadership, PR activity, company momentum'',
       url_patterns = [''/news'', ''/blog'', ''/insights'', ''/updates'', ''/press'', ''/media'',
                       ''/articles'', ''/resources''],
       title_patterns = [''news'', ''blog'', ''insights'', ''updates'', ''press releases'',
                         ''media'', ''articles'', ''thought leadership'', ''resources'']\<rparr>),
    (''locations'', \<lparr>tier = 3,
       intelligence = ''Market reach, geographic expansion, operational footprint'',
       url_patterns = [''/locations'', ''/offices'', ''/facilities'', ''/branches'', ''/stores'',
                       ''/find-us''],
       title_patterns = [''locations'', ''offices'', ''facilities'', ''branches'', ''stores'',
                         ''find us'', ''where we are'']\<rparr>),
    (''contact'', \<lparr>tier = 3,
       intelligence = ''Geographic presence, contact channels, business accessibility'',
       url_patterns = [''/contact'', ''/reach-us'', ''/get-in-touch'', ''/connect''],
       title_patterns = [''contact'', ''reach us'', ''get in touch'', ''contact us'',
                         ''connect'']\<rparr>),
    (''case-studies'', \<lparr>tier = 4,
       intelligence = ''Client quality, project scale, market positioning, success metrics'',
       url_patterns = [''/case-studies'', ''/portfolio'', ''/work'', ''/projects'', ''/clients'',
                       ''/success-stories'', ''/testimonials''],
       title_patterns = [''case studies'', ''portfolio'', ''our work'', ''projects'',
                         ''success stories'', ''client stories'', ''testimonials'']\<rparr>),
    (''industries'', \<lparr>tier = 4,
       intelligence = ''Market segments, vertical expertise, industry positioning'',
       url_patterns = [''/industries'', ''/sectors'', ''/markets'', ''/verticals'',
                       ''/who-we-serve''],
       title_patterns = [''industries'', ''sectors'', ''markets'', ''verticals'', ''who we serve'',
                         ''market focus'']\<rparr>),
    (''investors'', \<lparr>tier = 5,
       intelligence = ''Financial health, public company status, growth metrics'',
       url_patterns = [''/investors'', ''/investor-relations'', ''/financials'', ''/sec-filings'',
                       ''/earnings''],
       title_patterns = [''investors'', ''investor relations'', ''financials'', ''sec filings'',
                         ''earnings'']\<rparr>),
    (''legal'', \<lparr>tier = 6,
       intelligence = ''Compliance status (minimal business intelligence)'',
       url_patterns = [''/terms'', ''/privacy'', ''/legal'', ''/compliance'', ''/gdpr'', ''/ccpa'',
                       ''/cookies''],
       title_patterns = [''terms'', ''privacy'', ''legal'', ''compliance'', ''gdpr'', ''ccpa'',
                         ''cookie policy'']\<rparr>)]"

text \<open>
  The inner \<^verbatim>\<open>for pattern in ...: if pattern in s: return ...\<close> loop: it returns at the
  first pattern that occurs in \<open>s\<close>, so it returns exactly when some pattern of the list
  occurs.
\<close>

fun any_pattern_in :: "string list \<Rightarrow> string \<Rightarrow> bool" where
  "any_pattern_in [] s = False"
| "any_pattern_in (pattern # rest) s = (if str_in pattern s then True else any_pattern_in rest s)"

text \<open>The outer loop over the taxonomy, with the default after it.\<close>

fun classify_loop :: "(string \<times> config) list \<Rightarrow> string \<Rightarrow> string \<Rightarrow> string \<times> int \<times> string" where
  "classify_loop [] url_lower title_lower =
     (''unclassified'', 7, ''Unknown business intelligence value'')"
| "classify_loop ((classification, config) # rest) url_lower title_lower =
     (if any_pattern_in (url_patterns config) url_lower
        then (classification, tier config, intelligence config)
      else if any_pattern_in (title_patterns config) title_lower
        then (classification, tier config, intelligence config)
      else classify_loop rest url_lower title_lower)"

text \<open>
  \<^verbatim>\<open>x.lower() if x else ''\<close>: \<^verbatim>\<open>None\<close> and the empty string are both falsy.
\<close>

definition lower_or_empty :: "string option \<Rightarrow> string" where
  "lower_or_empty x = (case x of None \<Rightarrow> [] | Some s \<Rightarrow> if s = [] then [] else lower s)"

definition classify_page_bi :: "string option \<Rightarrow> string option \<Rightarrow> string \<times> int \<times> string" where
  "classify_page_bi url title =
     classify_loop BI_TAXONOMY (lower_or_empty url) (lower_or_empty title)"

text \<open>A rule matches a page when one of its URL patterns or one of its title patterns occurs.\<close>

definition rule_matches :: "config \<Rightarrow> string \<Rightarrow> string \<Rightarrow> bool" where
  "rule_matches cfg url_lower title_lower \<longleftrightarrow>
     (\<exists>p \<in> set (url_patterns cfg). str_in p url_lower) \<or>
     (\<exists>p \<in> set (title_patterns cfg). str_in p title_lower)"

definition rule_result :: "string \<times> config \<Rightarrow> string \<times> int \<times> string" where
  "rule_result r = (fst r, tier (snd r), intelligence (snd r))"

section \<open>Python values and the page dictionaries\<close>

text \<open>
  The pipeline passes pages around as Python dicts from field names to values. A dict is
  a map from keys to values; \<^verbatim>\<open>d[k]\<close> on a missing key raises \<^verbatim>\<open>KeyError\<close>, which is the
  \<open>None\<close> of the map. Python floats are kept abstract.
\<close>

typedecl pyfloat

instantiation pyfloat :: equal
begin

definition equal_pyfloat :: "pyfloat \<Rightarrow> pyfloat \<Rightarrow> bool" where
  "equal_pyfloat x y \<longleftrightarrow> x = y"

instance
  by standard (simp add: equal_pyfloat_def)

end

datatype pyval = PyNone | PyStr string | PyInt int | PyFloat pyfloat

type_synonym pydict = "string \<rightharpoonup> pyval"

section \<open>The persistent store\<close>

text \<open>
  The store is an external collaborator: the code reaches it through SQL statements only,
  and no schema is part of the repository. It is modelled by the two tables the
  statements name. Every statement is its own transaction (no statement of the code opens
  one), so a statement that fails leaves the tables as they were.

  Whether the store accepts an \<^verbatim>\<open>INSERT\<close> (no duplicate key, no constraint violated, no
  field too long) is the store's decision: it is the parameter \<open>accepts\<close>, which sees
  the tables and the row. \<^verbatim>\<open>NOW()\<close> is the parameter \<open>now\<close>. The \<^verbatim>\<open>DELETE\<close>,
  \<^verbatim>\<open>UPDATE\<close> and \<^verbatim>\<open>SELECT COUNT(*)\<close> statements defined here are modelled by
  what they ask for.
\<close>

record row =
  wp_structure_id :: nat
  wp_url :: pyval
  wp_path :: pyval
  wp_title :: pyval
  wp_page_type :: pyval
  wp_bi_classification :: pyval
  wp_business_value_tier :: pyval
  wp_intelligence_value :: pyval

record website_structure =
  total_pages :: int
  updated_at :: nat

record db =
  website_pages :: "row list"
  website_structures :: "nat \<rightharpoonup> website_structure"

text \<open>\<^verbatim>\<open>SELECT COUNT(*) FROM website_pages WHERE website_structure_id = $1\<close>\<close>

definition count_pages :: "nat \<Rightarrow> db \<Rightarrow> nat" where
  "count_pages sid d = length (filter (\<lambda>r. wp_structure_id r = sid) (website_pages d))"

text \<open>\<^verbatim>\<open>DELETE FROM website_pages WHERE website_structure_id = $1\<close>\<close>

definition delete_pages :: "nat \<Rightarrow> db \<Rightarrow> db" where
  "delete_pages sid d =
     d\<lparr>website_pages := filter (\<lambda>r. wp_structure_id r \<noteq> sid) (website_pages d)\<rparr>"

text \<open>\<^verbatim>\<open>INSERT INTO website_pages (...) VALUES (...)\<close>; \<open>None\<close> when the statement raises.\<close>

definition insert_page :: "(db \<Rightarrow> row \<Rightarrow> bool) \<Rightarrow> row \<Rightarrow> db \<Rightarrow> db option" where
  "insert_page accepts r d =
     (if accepts d r then Some (d\<lparr>website_pages := website_pages d @ [r]\<rparr>) else None)"

text \<open>
  \<^verbatim>\<open>UPDATE website_structures SET total_pages = $1, updated_at = NOW() WHERE id = $2\<close>:
  it changes the structure with that id, when there is one.
\<close>

definition update_structure :: "int \<Rightarrow> nat \<Rightarrow> nat \<Rightarrow> db \<Rightarrow> db" where
  "update_structure n now sid d =
     (case website_structures d sid of
        None \<Rightarrow> d
      | Some s \<Rightarrow>
          d\<lparr>website_structures :=
              (website_structures d)(sid \<mapsto> s\<lparr>total_pages := n, updated_at := now\<rparr>)\<rparr>)"

section \<open>Reconciliation (phase3\_scaled\_processor.py, phase3\_final.py, phase2\_pilot\_fix.py)\<close>

record company =
  company_name :: string
  company_domain :: string
  structure_id :: nat

record stats =
  processed :: nat
  successful :: nat
  failed :: nat
  total_pages_before :: nat
  total_pages_after :: nat

text \<open>
  The arguments of the \<^verbatim>\<open>INSERT\<close>: \<^verbatim>\<open>structure_id, page['url'], page['path'], ...\<close>.
  A missing key raises \<^verbatim>\<open>KeyError\<close> (\<open>None\<close>) before the statement is sent.
\<close>

definition insert_args :: "nat \<Rightarrow> pydict \<Rightarrow> row option" where
  "insert_args sid page =
     (case (page ''url'', page ''path'', page ''title'', page ''page_type'',
            page ''bi_classification'', page ''business_value_tier'',
            page ''intelligence_value'') of
        (Some u, Some p, Some t, Some pt, Some bi, Some tr, Some iv) \<Rightarrow>
          Some \<lparr>wp_structure_id = sid, wp_url = u, wp_path = p, wp_title = t,
                wp_page_type = pt, wp_bi_classification = bi,
                wp_business_value_tier = tr, wp_intelligence_value = iv\<rparr>
      | _ \<Rightarrow> None)"

text \<open>
  The insertion loop, the same in the three files:
  \<^verbatim>\<open>
  inserted = 0
  for page in pages_to_insert:
      try:
          await conn.execute(INSERT ..., structure_id, page['url'], ...)
          inserted += 1
      except:
          continue  # Skip problematic URLs
  \<close>
  It is given the tables and the counter and returns both.
\<close>

fun insert_loop :: "(db \<Rightarrow> row \<Rightarrow> bool) \<Rightarrow> nat \<Rightarrow> pydict list \<Rightarrow> db \<Rightarrow> nat \<Rightarrow> db \<times> nat" where
  "insert_loop accepts sid [] d inserted = (d, inserted)"
| "insert_loop accepts sid (page # rest) d inserted =
     (case insert_args sid page of
        None \<Rightarrow> insert_loop accepts sid rest d inserted
      | Some r \<Rightarrow>
          (case insert_page accepts r d of
             None \<Rightarrow> insert_loop accepts sid rest d inserted
           | Some d' \<Rightarrow> insert_loop accepts sid rest d' (inserted + 1)))"

text \<open>
  \<^verbatim>\<open>fix_company_with_real_pages(pool, company, stats)\<close> of phase3\_scaled\_processor.py.
  \<open>extracted\<close> is what \<^verbatim>\<open>await extract_company_real_pages(domain)\<close> gave: the list of
  pages, or \<open>None\<close> when it raised (the outer \<^verbatim>\<open>except Exception\<close> then returns
  \<^verbatim>\<open>False\<close>). The function returns its result, the \<^verbatim>\<open>stats\<close> dict it updates in place,
  and the tables.
\<close>

definition fix_company_with_real_pages ::
  "(db \<Rightarrow> row \<Rightarrow> bool) \<Rightarrow> nat \<Rightarrow> company \<Rightarrow> pydict list option \<Rightarrow> stats \<Rightarrow> db
     \<Rightarrow> bool \<times> stats \<times> db" where
  "fix_company_with_real_pages accepts now company extracted stats d =
     (let current_count = count_pages (structure_id company) d;
          stats1 = stats\<lparr>total_pages_before := total_pages_before stats + current_count\<rparr>
      in case extracted of
           None \<Rightarrow> (False, stats1, d)
         | Some real_pages \<Rightarrow>
             if length real_pages < 5 then (False, stats1, d)
             else
               let pages_to_insert = take 300 real_pages;
                   d1 = delete_pages (structure_id company) d;
                   (d2, inserted) = insert_loop accepts (structure_id company) pages_to_insert d1 0;
                   d3 = update_structure (int inserted) now (structure_id company) d2;
                   stats2 = stats1\<lparr>total_pages_after := total_pages_after stats1 + inserted\<rparr>
               in (True, stats2, d3))"

text \<open>
  \<^verbatim>\<open>fix_company_pages(pool, company)\<close> of phase3\_final.py; it returns
  \<^verbatim>\<open>(success, pages_added)\<close>.
\<close>

definition fix_company_pages ::
  "(db \<Rightarrow> row \<Rightarrow> bool) \<Rightarrow> nat \<Rightarrow> company \<Rightarrow> pydict list option \<Rightarrow> db
     \<Rightarrow> (bool \<times> nat) \<times> db" where
  "fix_company_pages accepts now company extracted d =
     (case extracted of
        None \<Rightarrow> ((False, 0), d)
      | Some real_pages \<Rightarrow>
          if length real_pages < 5 then ((False, 0), d)
          else
            let d1 = delete_pages (structure_id company) d;
                real_pages_limited = take 200 real_pages;
                (d2, inserted) = insert_loop accepts (structure_id company) real_pages_limited d1 0;
                d3 = update_structure (int inserted) now (structure_id company) d2
            in ((True, inserted), d3))"

text \<open>
  \<^verbatim>\<open>fix_company_sitemap(pool, company_name)\<close> of phase2\_pilot\_fix.py. \<open>found\<close> is the
  row the company query returned (\<open>None\<close>: no company of that name); \<open>real_pages\<close> is
  what \<^verbatim>\<open>extract_real_pages_for_company\<close> returned, which catches its own exceptions.
\<close>

definition fix_company_sitemap ::
  "(db \<Rightarrow> row \<Rightarrow> bool) \<Rightarrow> nat \<Rightarrow> company option \<Rightarrow> pydict list \<Rightarrow> db \<Rightarrow> bool \<times> db" where
  "fix_company_sitemap accepts now found real_pages d =
     (case found of
        None \<Rightarrow> (False, d)
      | Some company \<Rightarrow>
          if length real_pages < 10 then (False, d)
          else
            let pilot_pages = take 200 real_pages;
                d1 = delete_pages (structure_id company) d;
                (d2, inserted) = insert_loop accepts (structure_id company) pilot_pages d1 0;
                d3 = update_structure (int inserted) now (structure_id company) d2
            in (True, d3))"

section \<open>The states a reconciliation commits\<close>

text \<open>
  No reconciliation opens a transaction: the statements are sent one by one on a
  connection taken with \<^verbatim>\<open>pool.acquire()\<close>, and nowhere in the repository is
  \<^verbatim>\<open>conn.transaction()\<close> entered. Each statement that succeeds is therefore committed
  when it returns, and the tables it leaves are what another connection reads from then
  on. The functions below are the reconciliations above, returning instead of the last
  tables the sequence of all committed tables, in the order of the statements: the tables
  before the run, the tables after the \<^verbatim>\<open>DELETE\<close>, the tables after each \<^verbatim>\<open>INSERT\<close>
  that succeeded, and the tables after the \<^verbatim>\<open>UPDATE\<close>. A run that stops at the
  minimum-yield guard sends no statement that writes.
\<close>

fun insert_states :: "(db \<Rightarrow> row \<Rightarrow> bool) \<Rightarrow> nat \<Rightarrow> pydict list \<Rightarrow> db \<Rightarrow> db list" where
  "insert_states accepts sid [] d = []"
| "insert_states accepts sid (page # rest) d =
     (case insert_args sid page of
        None \<Rightarrow> insert_states accepts sid rest d
      | Some r \<Rightarrow>
          (case insert_page accepts r d of
             None \<Rightarrow> insert_states accepts sid rest d
           | Some d' \<Rightarrow> d' # insert_states accepts sid rest d'))"

definition fix_company_with_real_pages_states ::
  "(db \<Rightarrow> row \<Rightarrow> bool) \<Rightarrow> nat \<Rightarrow> company \<Rightarrow> pydict list option \<Rightarrow> db \<Rightarrow> db list" where
  "fix_company_with_real_pages_states accepts now company extracted d =
     (case extracted of
        None \<Rightarrow> [d]
      | Some real_pages \<Rightarrow>
          if length real_pages < 5 then [d]
          else
            let pages_to_insert = take 300 real_pages;
                d1 = delete_pages (structure_id company) d;
                inserts = insert_states accepts (structure_id company) pages_to_insert d1;
                d2 = last (d1 # inserts);
                d3 = update_structure (int (length inserts)) now (structure_id company) d2
            in [d, d1] @ inserts @ [d3])"

definition fix_company_sitemap_states ::
  "(db \<Rightarrow> row \<Rightarrow> bool) \<Rightarrow> nat \<Rightarrow> company option \<Rightarrow> pydict list \<Rightarrow> db \<Rightarrow> db list" where
  "fix_company_sitemap_states accepts now found real_pages d =
     (case found of
        None \<Rightarrow> [d]
      | Some company \<Rightarrow>
          if length real_pages < 10 then [d]
          else
            let pilot_pages = take 200 real_pages;
                d1 = delete_pages (structure_id company) d;
                inserts = insert_states accepts (structure_id company) pilot_pages d1;
                d2 = last (d1 # inserts);
                d3 = update_structure (int (length inserts)) now (structure_id company) d2
            in [d, d1] @ inserts @ [d3])"

section \<open>The first fixer (database\_sitemap\_fixer.py)\<close>

text \<open>
  Its \<^verbatim>\<open>INSERT\<close> reads \<^verbatim>\<open>page['url']\<close> and takes the other fields with
  \<^verbatim>\<open>page.get(key, default)\<close>.
\<close>

definition get_default :: "pydict \<Rightarrow> string \<Rightarrow> pyval \<Rightarrow> pyval" where
  "get_default page k dflt = (case page k of None \<Rightarrow> dflt | Some v \<Rightarrow> v)"

definition fixer_insert_args :: "nat \<Rightarrow> pydict \<Rightarrow> row option" where
  "fixer_insert_args sid page =
     (case page ''url'' of
        None \<Rightarrow> None
      | Some u \<Rightarrow>
          Some \<lparr>wp_structure_id = sid, wp_url = u,
                wp_path = get_default page ''path'' (PyStr ''/''),
                wp_title = get_default page ''title'' (PyStr ''Page''),
                wp_page_type = get_default page ''page_type'' (PyStr ''other''),
                wp_bi_classification = get_default page ''bi_classification'' (PyStr ''unclassified''),
                wp_business_value_tier = get_default page ''tier'' (PyInt 7),
                wp_intelligence_value = get_default page ''intelligence_value'' (PyStr ''Unknown'')\<rparr>)"

text \<open>
  Its insertion loop keeps no counter:
  \<^verbatim>\<open>
  for page in real_pages_sample:
      try:
          await conn.execute(INSERT ..., company['structure_id'], page['url'], page.get(...), ...)
      except Exception as e:
          print(f'... Failed to insert {page["url"]}: {e}')
  \<close>
  A rejected \<^verbatim>\<open>INSERT\<close> is reported and the loop goes on. A page without \<^verbatim>\<open>url\<close>
  raises \<^verbatim>\<open>KeyError\<close> in the statement's arguments and again in the handler's
  message, where nothing catches it: the loop and the function end there. The result
  says whether the loop ran to its end.
\<close>

fun fixer_insert_loop :: "(db \<Rightarrow> row \<Rightarrow> bool) \<Rightarrow> nat \<Rightarrow> pydict list \<Rightarrow> db \<Rightarrow> bool \<times> db" where
  "fixer_insert_loop accepts sid [] d = (True, d)"
| "fixer_insert_loop accepts sid (page # rest) d =
     (case fixer_insert_args sid page of
        None \<Rightarrow> (False, d)
      | Some r \<Rightarrow>
          (case insert_page accepts r d of
             None \<Rightarrow> fixer_insert_loop accepts sid rest d
           | Some d' \<Rightarrow> fixer_insert_loop accepts sid rest d'))"

text \<open>
  Its \<^verbatim>\<open>DELETE\<close> is not the one of the later scripts:
  \<^verbatim>\<open>
  deleted = await conn.fetchval('''
      DELETE FROM website_pages
      WHERE website_structure_id = $1
      RETURNING COUNT(*)
  ''', company['structure_id'])
  \<close>
  PostgreSQL allows no aggregate function in a \<^verbatim>\<open>RETURNING\<close> list: it rejects the
  statement when it is prepared, whatever the tables hold, and \<^verbatim>\<open>fetchval\<close> raises.
  The statement stands in no \<^verbatim>\<open>try\<close>. The result is \<open>None\<close> when the statement raises,
  and otherwise the value fetched and the tables it leaves.
\<close>

definition delete_returning_count :: "nat \<Rightarrow> db \<Rightarrow> (nat \<times> db) option" where
  "delete_returning_count sid d = None"

text \<open>
  \<^verbatim>\<open>fix_sitemap_database()\<close>: the loop over the companies the selection query returned,
  each paired here with what \<^verbatim>\<open>parse_company_real_pages(company['domain'])\<close> returned
  for it. The result says whether the function returned (\<open>True\<close>) or an exception left
  it, and gives the tables as they then are.
\<close>

fun fix_sitemap_database ::
  "(db \<Rightarrow> row \<Rightarrow> bool) \<Rightarrow> nat \<Rightarrow> (company \<times> pydict list) list \<Rightarrow> db \<Rightarrow> bool \<times> db" where
  "fix_sitemap_database accepts now [] d = (True, d)"
| "fix_sitemap_database accepts now ((company, real_pages) # problem_companies) d =
     (if length real_pages > 20 then
        (case delete_returning_count (structure_id company) d of
           None \<Rightarrow> (False, d)
         | Some (deleted, d1) \<Rightarrow>
             let real_pages_sample = take 100 real_pages;
                 (finished, d2) =
                   fixer_insert_loop accepts (structure_id company) real_pages_sample d1
             in if \<not> finished then (False, d2)
                else
                  let d3 = update_structure (int (length real_pages_sample)) now
                             (structure_id company) d2
                  in fix_sitemap_database accepts now problem_companies d3)
      else fix_sitemap_database accepts now problem_companies d)"

section \<open>Parsed XML (xml.etree.ElementTree)\<close>

text \<open>
  An element has a tag (with its namespace in braces, as ElementTree writes it), the text
  before its first child (\<^verbatim>\<open>None\<close> when there is none) and its children. The string
  \<^verbatim>\<open>xml_content\<close> that the code hands to \<^verbatim>\<open>ET.fromstring\<close> is represented by what
  \<^verbatim>\<open>ET.fromstring\<close> makes of it: \<open>Some root\<close>, or \<open>None\<close> when it raises
  \<^verbatim>\<open>ET.ParseError\<close>.
\<close>

datatype xml = Elem (elem_tag: string) (elem_text: "string option") (elem_children: "xml list")

text \<open>The elements below an element, in document order.\<close>

fun descendants :: "xml \<Rightarrow> xml list" where
  "descendants (Elem t x cs) = concat (map (\<lambda>c. c # descendants c) cs)"

text \<open>\<^verbatim>\<open>e.findall('.//tag')\<close> and \<^verbatim>\<open>e.find('.//tag')\<close>\<close>

definition findall :: "string \<Rightarrow> xml \<Rightarrow> xml list" where
  "findall t e = filter (\<lambda>d. elem_tag d = t) (descendants e)"

definition find_xml :: "string \<Rightarrow> xml \<Rightarrow> xml option" where
  "find_xml t e = (case findall t e of [] \<Rightarrow> None | d # ds \<Rightarrow> Some d)"

definition ns :: "string \<Rightarrow> string" where
  "ns t = ''{http://www.sitemaps.org/schemas/sitemap/0.9}'' @ t"

section \<open>Library functions taken as parameters\<close>

text \<open>
  \<^verbatim>\<open>urllib.parse.urlparse(url).path\<close> and \<^verbatim>\<open>float(text)\<close> are functions of the Python
  library; each is \<open>None\<close> where the library raises (\<^verbatim>\<open>ValueError\<close>). The page extractor
  is defined for any such pair of functions.
\<close>

record pylib =
  urlparse_path :: "string \<Rightarrow> string option"
  py_float :: "string \<Rightarrow> pyfloat option"

section \<open>The page extractor of advanced\_sitemap\_parser.py\<close>

text \<open>
  \<^verbatim>\<open>re.sub(r'\.html?$', '', title, flags=re.IGNORECASE)\<close>: a final \<^verbatim>\<open>.html\<close> or
  \<^verbatim>\<open>.htm\<close>, in any case, is removed; \<^verbatim>\<open>$\<close> also matches before a line feed that ends
  the string.
\<close>

definition sub_html_suffix :: "string \<Rightarrow> string" where
  "sub_html_suffix s =
     (let nl = (if s \<noteq> [] \<and> last s = CHR 0x0A then [CHR 0x0A] else []);
          core = take (length s - length nl) s
      in if endswith (lower core) ''.html'' then take (length core - 5) core @ nl
         else if endswith (lower core) ''.htm'' then take (length core - 4) core @ nl
         else s)"

text \<open>
  \<^verbatim>\<open>generate_title_from_url(url)\<close>; its body is inside \<^verbatim>\<open>try: ... except: return 'Page'\<close>.
\<close>

definition generate_title_from_url :: "pylib \<Rightarrow> string \<Rightarrow> string" where
  "generate_title_from_url L url =
     (case urlparse_path L url of
        None \<Rightarrow> ''Page''
      | Some parsed_path \<Rightarrow>
          let path = strip_chars (\<lambda>c. c = CHR ''/'') parsed_path in
          if path = [] then ''Home''
          else
            let segments = segments_of path in
            if segments \<noteq> [] then
              let last_segment = last segments;
                  title = map (\<lambda>c. if c = CHR ''_'' \<or> c = CHR ''-'' then CHR '' '' else c)
                            last_segment;
                  title = sub_html_suffix title
              in title_case title
            else ''Page'')"

text \<open>\<^verbatim>\<open>elem.text if elem is not None else None\<close>\<close>

definition text_or_none :: "xml option \<Rightarrow> pyval" where
  "text_or_none elem =
     (case elem of
        None \<Rightarrow> PyNone
      | Some e \<Rightarrow> (case elem_text e of None \<Rightarrow> PyNone | Some t \<Rightarrow> PyStr t))"

text \<open>
  \<^verbatim>\<open>float(priority_elem.text) if priority_elem is not None else None\<close>; the outer
  \<open>None\<close> is the exception that \<^verbatim>\<open>float\<close> raises on \<^verbatim>\<open>None\<close> or on a text that is no
  number.
\<close>

definition priority_of :: "pylib \<Rightarrow> xml option \<Rightarrow> pyval option" where
  "priority_of L priority_elem =
     (case priority_elem of
        None \<Rightarrow> Some PyNone
      | Some e \<Rightarrow>
          (case elem_text e of
             None \<Rightarrow> None
           | Some t \<Rightarrow> (case py_float L t of None \<Rightarrow> None | Some f \<Rightarrow> Some (PyFloat f))))"

text \<open>
  The page dict built for an accepted URL; \<open>None\<close> when \<^verbatim>\<open>urlparse\<close> or \<^verbatim>\<open>float\<close>
  raises.
\<close>

definition page_data :: "pylib \<Rightarrow> xml \<Rightarrow> string \<Rightarrow> pydict option" where
  "page_data L url_elem url =
     (let lastmod_elem = find_xml (ns ''lastmod'') url_elem;
          priority_elem = find_xml (ns ''priority'') url_elem;
          changefreq_elem = find_xml (ns ''changefreq'') url_elem
      in case urlparse_path L url of
           None \<Rightarrow> None
         | Some path \<Rightarrow>
             (case priority_of L priority_elem of
                None \<Rightarrow> None
              | Some priority \<Rightarrow>
                  Some [''url'' \<mapsto> PyStr url,
                        ''path'' \<mapsto> PyStr path,
                        ''title'' \<mapsto> PyStr (generate_title_from_url L url),
                        ''lastModified'' \<mapsto> text_or_none lastmod_elem,
                        ''priority'' \<mapsto> priority,
                        ''changeFreq'' \<mapsto> text_or_none changefreq_elem,
                        ''depth'' \<mapsto> PyInt (int (length (segments_of path)))]))"

text \<open>
  The loop over the \<^verbatim>\<open>url\<close> elements. An exception inside it is caught outside it, by
  \<^verbatim>\<open>except Exception\<close>: the loop ends there and the pages collected so far are
  returned.
\<close>

fun extract_loop :: "pylib \<Rightarrow> string \<Rightarrow> xml list \<Rightarrow> pydict list \<Rightarrow> pydict list" where
  "extract_loop L domain [] pages = pages"
| "extract_loop L domain (url_elem # rest) pages =
     (case find_xml (ns ''loc'') url_elem of
        None \<Rightarrow> extract_loop L domain rest pages
      | Some loc_elem \<Rightarrow>
          (case elem_text loc_elem of
             None \<Rightarrow> extract_loop L domain rest pages
           | Some loc_text \<Rightarrow>
               if loc_text = [] then extract_loop L domain rest pages
               else
                 let url = strip loc_text in
                 if str_in domain url \<and>
                    \<not> str_in ''sitemap'' (lower url) \<and>
                    \<not> str_in ''.xml'' (lower url) \<and>
                    (startswith url ''http://'' \<or> startswith url ''https://'')
                 then (case page_data L url_elem url of
                         None \<Rightarrow> pages
                       | Some page \<Rightarrow> extract_loop L domain rest (pages @ [page]))
                 else extract_loop L domain rest pages))"

definition extract_real_pages_from_xml :: "pylib \<Rightarrow> xml option \<Rightarrow> string \<Rightarrow> pydict list" where
  "extract_real_pages_from_xml L xml_content domain =
     (case xml_content of
        None \<Rightarrow> []
      | Some root \<Rightarrow> extract_loop L domain (findall (ns ''url'') root) [])"

text \<open>The four classification fields, as the dict literal the classifiers return.\<close>

definition bi_dict :: "string \<Rightarrow> string \<Rightarrow> int \<Rightarrow> string \<Rightarrow> pydict" where
  "bi_dict pt bc tr iv =
     [''page_type'' \<mapsto> PyStr pt, ''bi_classification'' \<mapsto> PyStr bc,
      ''business_value_tier'' \<mapsto> PyInt tr, ''intelligence_value'' \<mapsto> PyStr iv]"

text \<open>\<^verbatim>\<open>AdvancedSitemapParser.classify_page_for_bi(url)\<close>\<close>

definition classify_page_for_bi :: "string \<Rightarrow> pydict" where
  "classify_page_for_bi url =
     (let url_lower = lower url in
      if any_pattern_in [''/career'', ''/job'', ''/hiring'', ''/employment'', ''/work-with-us'',
                         ''/join-us''] url_lower
      then bi_dict ''careers'' ''careers'' 1
             ''Hiring activity, growth indicators, business expansion signals''
      else if any_pattern_in [''/service'', ''/solution'', ''/offering'', ''/capability'',
                              ''/what-we-do''] url_lower
      then bi_dict ''services'' ''services'' 1
             ''Revenue streams, core competencies, competitive positioning''
      else if any_pattern_in [''/product'', ''/shop'', ''/catalog'', ''/store'', ''/brands'']
                url_lower
      then bi_dict ''products'' ''products'' 1
             ''Product portfolio, market focus, innovation pipeline''
      else if any_pattern_in [''/about'', ''/company'', ''/who-we-are'', ''/overview'',
                              ''/our-story''] url_lower
      then bi_dict ''about'' ''about'' 1 ''Mission, history, size, business model, values''
      else if any_pattern_in [''/team'', ''/leadership'', ''/people'', ''/staff'', ''/management'',
                              ''/executives''] url_lower
      then bi_dict ''team'' ''team'' 2
             ''Leadership depth, expertise, company culture, decision makers''
      else if any_pattern_in [''/news'', ''/blog'', ''/insight'', ''/article'', ''/press'',
                              ''/media''] url_lower
      then bi_dict ''news'' ''news'' 2
             ''Market activity, thought leadership, PR activity, company momentum''
      else if any_pattern_in [''/location'', ''/office'', ''/facility'', ''/branch'', ''/store'']
                url_lower
      then bi_dict ''locations'' ''locations'' 3
             ''Market reach, geographic expansion, operational footprint''
      else if any_pattern_in [''/contact'', ''/reach-us'', ''/get-in-touch''] url_lower
      then bi_dict ''contact'' ''contact'' 3
             ''Geographic presence, contact channels, business accessibility''
      else bi_dict ''other'' ''unclassified'' 7 ''Unknown business intelligence value'')"

section \<open>The page extractor of phase3\_scaled\_processor.py\<close>

text \<open>\<^verbatim>\<open>get_enhanced_bi_classification(url)\<close>\<close>

definition get_enhanced_bi_classification :: "string \<Rightarrow> pydict" where
  "get_enhanced_bi_classification url =
     (let url_lower = lower url in
      if any_pattern_in [''/career'', ''/job'', ''/hiring'', ''/employment'', ''/opportunity'']
           url_lower
      then bi_dict ''careers'' ''careers'' 1
             ''Hiring activity, growth indicators, business expansion signals''
      else if any_pattern_in [''/service'', ''/solution'', ''/offering'', ''/capability'']
                url_lower
      then bi_dict ''services'' ''services'' 1
             ''Revenue streams, core competencies, competitive positioning''
      else if any_pattern_in [''/product'', ''/catalog'', ''/shop'', ''/store'', ''/brand'']
                url_lower
      then bi_dict ''products'' ''products'' 1
             ''Product portfolio, market focus, innovation pipeline''
      else if any_pattern_in [''/about'', ''/company'', ''/who-we-are'', ''/overview''] url_lower
      then bi_dict ''about'' ''about'' 1 ''Mission, history, size, business model, values''
      else if any_pattern_in [''/team'', ''/leadership'', ''/people'', ''/staff'', ''/management'']
                url_lower
      then bi_dict ''team'' ''team'' 2
             ''Leadership depth, expertise, company culture, decision makers''
      else if any_pattern_in [''/news'', ''/blog'', ''/insight'', ''/article'', ''/press'',
                              ''/media''] url_lower
      then bi_dict ''news'' ''news'' 2
             ''Market activity, thought leadership, PR activity, company momentum''
      else if any_pattern_in [''/location'', ''/office'', ''/facility'', ''/branch''] url_lower
      then bi_dict ''locations'' ''locations'' 3
             ''Market reach, geographic expansion, operational footprint''
      else if any_pattern_in [''/contact'', ''/reach-us'', ''/get-in-touch''] url_lower
      then bi_dict ''contact'' ''contact'' 3
             ''Geographic presence, contact channels, business accessibility''
      else bi_dict ''other'' ''unclassified'' 7 ''Unknown business intelligence value'')"

text \<open>\<^verbatim>\<open>create_title_from_path(path)\<close>\<close>

definition create_title_from_path :: "string \<Rightarrow> string" where
  "create_title_from_path path =
     (if path = ''/'' then ''Home''
      else
        let segments = segments_of path in
        if segments \<noteq> [] then
          let last_segment = last segments;
              title = replace ''_'' '' '' (replace ''-'' '' '' last_segment);
              title = replace ''.php'' [] (replace ''.htm'' [] (replace ''.html'' [] title))
          in title_case title
        else ''Page'')"

text \<open>
  \<^verbatim>\<open>parse_sitemap_for_real_pages(xml_content, domain)\<close>. Nothing in its loop raises, and
  only \<^verbatim>\<open>ET.ParseError\<close> is caught. \<open>real_page_of\<close> is the body of the loop: the page
  it appends for a \<^verbatim>\<open>url\<close> element, or \<open>None\<close> when it passes the element over.
\<close>

definition real_page_of :: "string \<Rightarrow> xml \<Rightarrow> pydict option" where
  "real_page_of domain url_elem =
     (case find_xml (ns ''loc'') url_elem of
        None \<Rightarrow> None
      | Some loc_elem \<Rightarrow>
          (case elem_text loc_elem of
             None \<Rightarrow> None
           | Some loc_text \<Rightarrow>
               if loc_text = [] then None
               else
                 let url = strip loc_text in
                 if str_in domain url \<and>
                    \<not> str_in ''sitemap'' (lower url) \<and>
                    \<not> str_in ''.xml'' (lower url) \<and>
                    \<not> endswith url ''.xml'' \<and>
                    (startswith url ''http://'' \<or> startswith url ''https://'')
                 then
                   let path = replace (''https://'' @ domain) []
                                (replace (''https://www.'' @ domain) [] url);
                       path = (if path = [] then ''/'' else path);
                       bi_info = get_enhanced_bi_classification url
                   in Some ([''url'' \<mapsto> PyStr url,
                             ''path'' \<mapsto> PyStr path,
                             ''title'' \<mapsto> PyStr (create_title_from_path path),
                             ''depth'' \<mapsto> PyInt (int (length (segments_of path)))]
                            ++ bi_info)
                 else None))"

fun real_pages_loop :: "string \<Rightarrow> xml list \<Rightarrow> pydict list \<Rightarrow> pydict list" where
  "real_pages_loop domain [] pages = pages"
| "real_pages_loop domain (url_elem # rest) pages =
     (case real_page_of domain url_elem of
        None \<Rightarrow> real_pages_loop domain rest pages
      | Some page \<Rightarrow> real_pages_loop domain rest (pages @ [page]))"

definition parse_sitemap_for_real_pages :: "xml option \<Rightarrow> string \<Rightarrow> pydict list" where
  "parse_sitemap_for_real_pages xml_content domain =
     (case xml_content of
        None \<Rightarrow> []
      | Some root \<Rightarrow> real_pages_loop domain (findall (ns ''url'') root) [])"

section \<open>The page extractor of database\_sitemap\_fixer.py\<close>

text \<open>\<^verbatim>\<open>classify_real_page(url)\<close> and \<^verbatim>\<open>get_bi_classification(page_type)\<close>\<close>

definition classify_real_page :: "string \<Rightarrow> string" where
  "classify_real_page url =
     (let url_lower = lower url in
      if any_pattern_in [''/career'', ''/job'', ''/hiring''] url_lower then ''careers''
      else if any_pattern_in [''/service'', ''/solution''] url_lower then ''services''
      else if any_pattern_in [''/product'', ''/shop'', ''/catalog''] url_lower then ''products''
      else if any_pattern_in [''/about'', ''/company''] url_lower then ''about''
      else if any_pattern_in [''/news'', ''/blog'', ''/press''] url_lower then ''news''
      else if any_pattern_in [''/team'', ''/leadership''] url_lower then ''team''
      else if any_pattern_in [''/contact''] url_lower then ''contact''
      else ''other'')"

definition bi_map :: "(string \<times> string \<times> int \<times> string) list" where
  "bi_map =
     [(''careers'', ''careers'', 1,
         ''Hiring activity, growth indicators, business expansion signals''),
      (''services'', ''services'', 1,
         ''Revenue streams, core competencies, competitive positioning''),
      (''products'', ''products'', 1, ''Product portfolio, market focus, innovation pipeline''),
      (''about'', ''about'', 1, ''Mission, history, size, business model, values''),
      (''team'', ''team'', 2, ''Leadership depth, expertise, company culture, decision makers''),
      (''news'', ''news'', 2,
         ''Market activity, thought leadership, PR activity, company momentum''),
      (''contact'', ''contact'', 3,
         ''Geographic presence, contact channels, business accessibility''),
      (''other'', ''unclassified'', 7, ''Unknown business intelligence value'')]"

definition get_bi_classification :: "string \<Rightarrow> string \<times> int \<times> string" where
  "get_bi_classification page_type =
     (case map_of bi_map page_type of
        Some v \<Rightarrow> v
      | None \<Rightarrow> (''unclassified'', 7, ''Unknown business intelligence value''))"

text \<open>\<^verbatim>\<open>generate_title_from_path(path)\<close>\<close>

definition generate_title_from_path :: "string \<Rightarrow> string" where
  "generate_title_from_path path =
     (if path = ''/'' then ''Home''
      else
        let segments = segments_of path in
        if segments \<noteq> [] then
          let last_segment = replace ''_'' '' '' (replace ''-'' '' '' (last segments))
          in title_case last_segment
        else ''Page'')"

text \<open>
  \<^verbatim>\<open>extract_urls_from_sitemap_xml(xml_content, domain)\<close>. It takes \<^verbatim>\<open>loc_elem.text\<close> as
  it is, and its filter is \<^verbatim>\<open>domain in url and 'sitemap' not in url.lower()\<close>.
  \<open>listed_page_of\<close> is the body of its loop: the page it appends for a \<^verbatim>\<open>url\<close>
  element, or \<open>None\<close> when it passes the element over.
\<close>

definition listed_page_of :: "string \<Rightarrow> xml \<Rightarrow> pydict option" where
  "listed_page_of domain url_elem =
     (case find_xml (ns ''loc'') url_elem of
        None \<Rightarrow> None
      | Some loc_elem \<Rightarrow>
          (case elem_text loc_elem of
             None \<Rightarrow> None
           | Some url \<Rightarrow>
               if url = [] then None
               else if str_in domain url \<and> \<not> str_in ''sitemap'' (lower url)
               then
                 let path = replace (''http://'' @ domain) []
                              (replace (''https://'' @ domain) [] url);
                     path = (if \<not> startswith path ''/'' then ''/'' @ path else path);
                     page_type = classify_real_page url;
                     (bi_class, bi_tier, bi_intelligence) = get_bi_classification page_type
                 in Some [''url'' \<mapsto> PyStr url,
                          ''path'' \<mapsto> PyStr path,
                          ''title'' \<mapsto> PyStr (generate_title_from_path path),
                          ''page_type'' \<mapsto> PyStr page_type,
                          ''bi_classification'' \<mapsto> PyStr bi_class,
                          ''tier'' \<mapsto> PyInt bi_tier,
                          ''intelligence_value'' \<mapsto> PyStr bi_intelligence]
               else None))"

fun extract_urls_loop :: "string \<Rightarrow> xml list \<Rightarrow> pydict list \<Rightarrow> pydict list" where
  "extract_urls_loop domain [] pages = pages"
| "extract_urls_loop domain (url_elem # rest) pages =
     (case listed_page_of domain url_elem of
        None \<Rightarrow> extract_urls_loop domain rest pages
      | Some page \<Rightarrow> extract_urls_loop domain rest (pages @ [page]))"

definition extract_urls_from_sitemap_xml :: "xml option \<Rightarrow> string \<Rightarrow> pydict list" where
  "extract_urls_from_sitemap_xml xml_content domain =
     (case xml_content of
        None \<Rightarrow> []
      | Some root \<Rightarrow> extract_urls_loop domain (findall (ns ''url'') root) [])"

section \<open>The network\<close>

text \<open>
  A GET either raises (a timeout, a connection error, a URL that is no URL) or gives a
  response with a status and a body. The body is kept as what \<^verbatim>\<open>ET.fromstring\<close> makes of
  it. During one walk the network is a function \<open>fetch\<close> from the URL asked for to what
  the GET gives.
\<close>

datatype response = Raised | Response nat "xml option"

section \<open>The sitemap walk of advanced\_sitemap\_parser.py\<close>

text \<open>\<^verbatim>\<open>find_main_sitemap(session, domain)\<close>\<close>

fun find_main_loop :: "(string \<Rightarrow> response) \<Rightarrow> string list \<Rightarrow> string option" where
  "find_main_loop fetch [] = None"
| "find_main_loop fetch (sitemap_url # rest) =
     (case fetch sitemap_url of
        Raised \<Rightarrow> find_main_loop fetch rest
      | Response status body \<Rightarrow>
          if status = 200 then Some sitemap_url else find_main_loop fetch rest)"

definition find_main_sitemap :: "(string \<Rightarrow> response) \<Rightarrow> string \<Rightarrow> string option" where
  "find_main_sitemap fetch domain =
     find_main_loop fetch
       [''https://'' @ domain @ ''/sitemap.xml'',
        ''https://www.'' @ domain @ ''/sitemap.xml'',
        ''https://'' @ domain @ ''/sitemap_index.xml'',
        ''https://'' @ domain @ ''/sitemaps.xml'']"

text \<open>
  \<^verbatim>\<open>page.update(AdvancedSitemapParser.classify_page_for_bi(page['url']))\<close>; \<open>None\<close> when
  it raises (no \<^verbatim>\<open>url\<close> key, or a value that has no \<^verbatim>\<open>lower()\<close>).
\<close>

definition update_bi :: "pydict \<Rightarrow> pydict option" where
  "update_bi page =
     (case page ''url'' of
        Some (PyStr url) \<Rightarrow> Some (page ++ classify_page_for_bi url)
      | _ \<Rightarrow> None)"

text \<open>
  The inner loop over the pages of one sub-sitemap:
  \<^verbatim>\<open>
  for page in sub_pages:
      if len(real_pages) >= limit_pages:
          break
      page.update(...)
      real_pages.append(page)
  \<close>
  An exception in it is caught by the \<^verbatim>\<open>except Exception: continue\<close> around the
  sub-sitemap, which goes on with the next sub-sitemap as \<^verbatim>\<open>break\<close> does.
\<close>

fun add_sub_pages :: "int \<Rightarrow> pydict list \<Rightarrow> pydict list \<Rightarrow> pydict list" where
  "add_sub_pages limit_pages [] real_pages = real_pages"
| "add_sub_pages limit_pages (page # rest) real_pages =
     (if int (length real_pages) \<ge> limit_pages then real_pages
      else (case update_bi page of
              None \<Rightarrow> real_pages
            | Some page' \<Rightarrow> add_sub_pages limit_pages rest (real_pages @ [page'])))"

text \<open>The loop over the \<^verbatim>\<open>sitemap\<close> elements of an index.\<close>

fun sub_sitemaps_loop ::
  "pylib \<Rightarrow> (string \<Rightarrow> response) \<Rightarrow> string \<Rightarrow> int \<Rightarrow> xml list \<Rightarrow> pydict list \<Rightarrow> pydict list" where
  "sub_sitemaps_loop L fetch domain limit_pages [] real_pages = real_pages"
| "sub_sitemaps_loop L fetch domain limit_pages (sitemap_elem # rest) real_pages =
     (if int (length real_pages) \<ge> limit_pages then real_pages
      else
        (case find_xml (ns ''loc'') sitemap_elem of
           None \<Rightarrow> sub_sitemaps_loop L fetch domain limit_pages rest real_pages
         | Some loc_elem \<Rightarrow>
             (case elem_text loc_elem of
                None \<Rightarrow> sub_sitemaps_loop L fetch domain limit_pages rest real_pages
              | Some sub_sitemap_url \<Rightarrow>
                  (case fetch sub_sitemap_url of
                     Raised \<Rightarrow> sub_sitemaps_loop L fetch domain limit_pages rest real_pages
                   | Response status sub_xml \<Rightarrow>
                       if status = 200 then
                         sub_sitemaps_loop L fetch domain limit_pages rest
                           (add_sub_pages limit_pages
                              (extract_real_pages_from_xml L sub_xml domain) real_pages)
                       else sub_sitemaps_loop L fetch domain limit_pages rest real_pages))))"

text \<open>\<^verbatim>\<open>pages[:k]\<close> for an integer \<open>k\<close>: a negative \<open>k\<close> counts from the end.\<close>

definition slice_to :: "int \<Rightarrow> 'a list \<Rightarrow> 'a list" where
  "slice_to k xs = (if 0 \<le> k then take (nat k) xs else take (length xs - nat (- k)) xs)"

text \<open>
  The loop of the direct sitemap, \<^verbatim>\<open>for page in pages[:limit_pages]\<close>; an exception in
  it is caught by the outer handler, after which what was collected is returned.
\<close>

fun direct_loop :: "pydict list \<Rightarrow> pydict list \<Rightarrow> pydict list" where
  "direct_loop [] real_pages = real_pages"
| "direct_loop (page # rest) real_pages =
     (case update_bi page of
        None \<Rightarrow> real_pages
      | Some page' \<Rightarrow> direct_loop rest (real_pages @ [page']))"

text \<open>\<^verbatim>\<open>parse_company_real_pages(domain, limit_pages=500)\<close>\<close>

definition parse_company_real_pages ::
  "pylib \<Rightarrow> (string \<Rightarrow> response) \<Rightarrow> string \<Rightarrow> int \<Rightarrow> pydict list" where
  "parse_company_real_pages L fetch domain limit_pages =
     (case find_main_sitemap fetch domain of
        None \<Rightarrow> []
      | Some main_sitemap_url \<Rightarrow>
          (case fetch main_sitemap_url of
             Raised \<Rightarrow> []
           | Response status xml_content \<Rightarrow>
               if status = 200 then
                 (case xml_content of
                    None \<Rightarrow> []
                  | Some root \<Rightarrow>
                      let sitemap_elements = findall (ns ''sitemap'') root in
                      if sitemap_elements \<noteq> [] then
                        sub_sitemaps_loop L fetch domain limit_pages sitemap_elements []
                      else
                        direct_loop
                          (slice_to limit_pages (extract_real_pages_from_xml L xml_content domain))
                          [])
               else []))"

section \<open>The sitemap index walk of phase3\_scaled\_processor.py\<close>

text \<open>
  The loop of \<^verbatim>\<open>parse_sitemap_index_for_real_pages\<close> over the first ten \<^verbatim>\<open>sitemap\<close>
  elements. The length is tested after \<^verbatim>\<open>all_pages.extend(pages)\<close>.
\<close>

fun index_pages_loop :: "(string \<Rightarrow> response) \<Rightarrow> string \<Rightarrow> xml list \<Rightarrow> pydict list \<Rightarrow> pydict list" where
  "index_pages_loop fetch domain [] all_pages = all_pages"
| "index_pages_loop fetch domain (sitemap_elem # rest) all_pages =
     (case find_xml (ns ''loc'') sitemap_elem of
        None \<Rightarrow> index_pages_loop fetch domain rest all_pages
      | Some loc_elem \<Rightarrow>
          (case elem_text loc_elem of
             None \<Rightarrow> index_pages_loop fetch domain rest all_pages
           | Some sub_sitemap_url \<Rightarrow>
               (case fetch sub_sitemap_url of
                  Raised \<Rightarrow> index_pages_loop fetch domain rest all_pages
                | Response status sub_xml \<Rightarrow>
                    if status = 200 then
                      let pages = parse_sitemap_for_real_pages sub_xml domain;
                          all_pages = all_pages @ pages
                      in if length all_pages \<ge> 300 then all_pages
                         else index_pages_loop fetch domain rest all_pages
                    else index_pages_loop fetch domain rest all_pages)))"

definition parse_sitemap_index_for_real_pages ::
  "(string \<Rightarrow> response) \<Rightarrow> xml option \<Rightarrow> string \<Rightarrow> pydict list" where
  "parse_sitemap_index_for_real_pages fetch xml_content domain =
     (case xml_content of
        None \<Rightarrow> []
      | Some root \<Rightarrow>
          index_pages_loop fetch domain (take 10 (findall (ns ''sitemap'') root)) [])"

section \<open>What a listed sub-sitemap contributes\<close>

text \<open>
  The pages that one \<^verbatim>\<open>sitemap\<close> element of an index stands for: those of the document
  its \<^verbatim>\<open>loc\<close> names, when the GET gives status 200, and none otherwise. In the walk of
  advanced\_sitemap\_parser.py they carry their classification.
\<close>

definition sub_document :: "(string \<Rightarrow> response) \<Rightarrow> xml \<Rightarrow> xml option option" where
  "sub_document fetch sitemap_elem =
     (case find_xml (ns ''loc'') sitemap_elem of
        None \<Rightarrow> None
      | Some loc_elem \<Rightarrow>
          (case elem_text loc_elem of
             None \<Rightarrow> None
           | Some sub_sitemap_url \<Rightarrow>
               (case fetch sub_sitemap_url of
                  Raised \<Rightarrow> None
                | Response status sub_xml \<Rightarrow> if status = 200 then Some sub_xml else None)))"

definition classified_sub_pages :: "pylib \<Rightarrow> (string \<Rightarrow> response) \<Rightarrow> string \<Rightarrow> xml \<Rightarrow> pydict list" where
  "classified_sub_pages L fetch domain sitemap_elem =
     (case sub_document fetch sitemap_elem of
        None \<Rightarrow> []
      | Some sub_xml \<Rightarrow> List.map_filter update_bi (extract_real_pages_from_xml L sub_xml domain))"

definition real_sub_pages :: "(string \<Rightarrow> response) \<Rightarrow> string \<Rightarrow> xml \<Rightarrow> pydict list" where
  "real_sub_pages fetch domain sitemap_elem =
     (case sub_document fetch sitemap_elem of
        None \<Rightarrow> []
      | Some sub_xml \<Rightarrow> parse_sitemap_for_real_pages sub_xml domain)"

section \<open>What the claims say about a yielded URL\<close>

text \<open>
  The code never computes the host of a URL; the claims speak of it. \<open>url_host\<close> is the
  host as URL syntax has it: what stands between \<^verbatim>\<open>http://\<close> or \<^verbatim>\<open>https://\<close> and the
  next \<^verbatim>\<open>/\<close>, \<^verbatim>\<open>?\<close> or \<^verbatim>\<open>#\<close>. A host belongs to a domain when it is the domain or
  ends with a dot and the domain.
\<close>

definition after_scheme :: "string \<Rightarrow> string" where
  "after_scheme u =
     (if startswith u ''https://'' then drop 8 u
      else if startswith u ''http://'' then drop 7 u
      else u)"

definition url_host :: "string \<Rightarrow> string" where
  "url_host u = takeWhile (\<lambda>c. c \<notin> set ''/?#'') (after_scheme u)"

definition host_in_domain :: "string \<Rightarrow> string \<Rightarrow> bool" where
  "host_in_domain h d \<longleftrightarrow> h = d \<or> endswith h (''.'' @ d)"

text \<open>
  \<open>real_url\<close>: the page has a URL that contains the domain, contains no \<^verbatim>\<open>sitemap\<close>,
  does not end in \<^verbatim>\<open>.xml\<close> and starts with \<^verbatim>\<open>http://\<close> or \<^verbatim>\<open>https://\<close>.
  \<open>listed_url\<close>: the page has a URL that contains the domain and no \<^verbatim>\<open>sitemap\<close>.
\<close>

definition real_url :: "string \<Rightarrow> pydict \<Rightarrow> bool" where
  "real_url domain p \<longleftrightarrow>
     (\<exists>u. p ''url'' = Some (PyStr u) \<and> str_in domain u \<and>
          \<not> str_in ''sitemap'' u \<and> \<not> endswith u ''.xml'' \<and>
          (startswith u ''http://'' \<or> startswith u ''https://''))"

definition listed_url :: "string \<Rightarrow> pydict \<Rightarrow> bool" where
  "listed_url domain p \<longleftrightarrow>
     (\<exists>u. p ''url'' = Some (PyStr u) \<and> str_in domain u \<and> \<not> str_in ''sitemap'' u)"

text \<open>The values under \<^verbatim>\<open>url\<close> of a list of pages.\<close>

definition urls_of :: "pydict list \<Rightarrow> pyval option list" where
  "urls_of pages = map (\<lambda>p. p ''url'') pages"

section \<open>What the claims say about the stored rows\<close>

text \<open>
  The rows a reconciliation asks the store to insert, in the order of the candidates, and
  the rows of the other companies, which it leaves alone.
\<close>

definition candidate_rows :: "nat \<Rightarrow> pydict list \<Rightarrow> row list" where
  "candidate_rows sid pages = List.map_filter (insert_args sid) pages"

definition kept_rows :: "nat \<Rightarrow> db \<Rightarrow> row list" where
  "kept_rows sid d = filter (\<lambda>r. wp_structure_id r \<noteq> sid) (website_pages d)"

text \<open>
  A failed insertion is skipped and nothing else is lost: the table ends as the rows of
  the other companies followed by the new rows of this one, where the new rows are
  candidates, in the candidates' order; a candidate the store accepts whatever the tables
  hold is among them, wherever it stands among rejected ones; a row is there only if the
  store accepted it; and for a store whose decision depends on the row alone (a limit on
  the length of a field), the new rows are exactly the candidates it accepts.
\<close>

definition rows_replaced ::
  "(db \<Rightarrow> row \<Rightarrow> bool) \<Rightarrow> nat \<Rightarrow> pydict list \<Rightarrow> db \<Rightarrow> db \<Rightarrow> bool" where
  "rows_replaced accepts sid pages d d' \<longleftrightarrow>
     (\<exists>new. website_pages d' = kept_rows sid d @ new \<and>
            subseq new (candidate_rows sid pages) \<and>
            (\<forall>s \<in> set (candidate_rows sid pages). (\<forall>d0. accepts d0 s) \<longrightarrow> s \<in> set new) \<and>
            (\<forall>s \<in> set new. \<exists>d0. accepts d0 s) \<and>
            (\<forall>ok. (\<forall>d0 s. accepts d0 s = ok s) \<longrightarrow>
                  new = filter ok (candidate_rows sid pages)))"

section \<open>Sample data\<close>

text \<open>
  Concrete pages, a company and tables on which the functions are run below.
  \<open>sample_accepts\<close> is a store whose \<^verbatim>\<open>url\<close> column holds at most 24 characters.
\<close>

definition sample_page :: "string \<Rightarrow> pydict" where
  "sample_page u =
     [''url'' \<mapsto> PyStr u, ''path'' \<mapsto> PyStr ''/'', ''title'' \<mapsto> PyStr ''Home'',
      ''page_type'' \<mapsto> PyStr ''other'', ''bi_classification'' \<mapsto> PyStr ''unclassified'',
      ''business_value_tier'' \<mapsto> PyInt 7,
      ''intelligence_value'' \<mapsto> PyStr ''Unknown business intelligence value'']"


definition sample_company :: company where
  "sample_company = \<lparr>company_name = ''Acme'', company_domain = ''example.com'', structure_id = 1\<rparr>"

definition sample_row :: "nat \<Rightarrow> string \<Rightarrow> row" where
  "sample_row sid u =
     \<lparr>wp_structure_id = sid, wp_url = PyStr u, wp_path = PyStr ''/'', wp_title = PyStr ''Home'',
      wp_page_type = PyStr ''other'', wp_bi_classification = PyStr ''unclassified'',
      wp_business_value_tier = PyInt 7,
      wp_intelligence_value = PyStr ''Unknown business intelligence value''\<rparr>"

definition sample_db :: db where
  "sample_db =
     \<lparr>website_pages = [sample_row 1 ''https://example.com/sitemap.xml'',
                        sample_row 2 ''https://other.org/''],
      website_structures = [1 \<mapsto> \<lparr>total_pages = 1, updated_at = 0\<rparr>,
                            2 \<mapsto> \<lparr>total_pages = 1, updated_at = 0\<rparr>]\<rparr>"

definition sample_accepts :: "db \<Rightarrow> row \<Rightarrow> bool" where
  "sample_accepts d r = (case wp_url r of PyStr u \<Rightarrow> length u \<le> 24 | _ \<Rightarrow> False)"

text \<open>A store that rejects every \<^verbatim>\<open>INSERT\<close>.\<close>

definition sample_rejecting :: "db \<Rightarrow> row \<Rightarrow> bool" where
  "sample_rejecting d r = False"

definition sample_stats :: stats where
  "sample_stats = \<lparr>processed = 0, successful = 0, failed = 0, total_pages_before = 0,
      total_pages_after = 0\<rparr>"


text \<open>
  A sitemap document with one \<^verbatim>\<open>url\<close> element per URL given, and library functions
  for plain URLs: the path is what follows the host, up to a \<^verbatim>\<open>?\<close> or \<^verbatim>\<open>#\<close>, and no
  text is a number.
\<close>

definition sample_url_elem :: "string \<Rightarrow> xml" where
  "sample_url_elem u = Elem (ns ''url'') None [Elem (ns ''loc'') (Some u) []]"

definition sample_urlset :: "string list \<Rightarrow> xml" where
  "sample_urlset us = Elem (ns ''urlset'') None (map sample_url_elem us)"

definition sample_lib :: pylib where
  "sample_lib =
     \<lparr>urlparse_path = (\<lambda>u. Some (takeWhile (\<lambda>c. c \<notin> set ''?#'')
                                  (dropWhile (\<lambda>c. c \<notin> set ''/?#'') (after_scheme u)))),
      py_float = (\<lambda>t. None)\<rparr>"

text \<open>
  A sitemap index with one \<^verbatim>\<open>sitemap\<close> element per URL given, and a network that serves
  an index of three sub-sitemaps of which the second answers with status 500, and a
  sub-sitemap of 301 pages.
\<close>

definition sample_index :: "string list \<Rightarrow> xml" where
  "sample_index us =
     Elem (ns ''sitemapindex'') None
       (map (\<lambda>u. Elem (ns ''sitemap'') None [Elem (ns ''loc'') (Some u) []]) us)"

definition sample_fetch :: "string \<Rightarrow> response" where
  "sample_fetch u =
     (if u = ''https://example.com/sitemap.xml'' then
        Response 200 (Some (sample_index [''https://example.com/sitemap-1.xml'',
                                          ''https://example.com/sitemap-2.xml'',
                                          ''https://example.com/sitemap-3.xml'']))
      else if u = ''https://example.com/sitemap-1.xml'' then
        Response 200 (Some (sample_urlset [''https://example.com/careers'',
                                           ''https://example.com/about'']))
      else if u = ''https://example.com/sitemap-2.xml'' then Response 500 None
      else if u = ''https://example.com/sitemap-3.xml'' then
        Response 200 (Some (sample_urlset [''https://example.com/contact'']))
      else if u = ''https://example.com/sitemap-big.xml'' then
        Response 200 (Some (sample_urlset (replicate 301 ''https://example.com/a'')))
      else Raised)"

section \<open>Properties of the string primitives\<close>

lemma startswith_prefix: "startswith s p \<longleftrightarrow> prefix p s"
  by (induction s p rule: startswith.induct) auto

lemma str_in_sublist: "str_in p s \<longleftrightarrow> sublist p s"
proof (induction s)
  case Nil
  show ?case by simp
next
  case (Cons c s)
  show ?case
  proof (cases p)
    case Nil
    then show ?thesis by simp
  next
    case (Cons a q)
    with Cons.IH show ?thesis
      by (simp add: startswith_prefix sublist_Cons_right)
  qed
qed

lemma endswith_suffix: "endswith s p \<longleftrightarrow> suffix p s"
  by (simp add: endswith_def startswith_prefix suffix_to_prefix)

section \<open>Properties of the BI classifier\<close>

lemma any_pattern_in_iff: "any_pattern_in ps s \<longleftrightarrow> (\<exists>p \<in> set ps. str_in p s)"
  by (induction ps) auto

lemma classify_loop_first_match:
  assumes "i < length rules"
    and "rule_matches (snd (rules ! i)) u t"
    and "\<forall>j<i. \<not> rule_matches (snd (rules ! j)) u t"
  shows "classify_loop rules u t = rule_result (rules ! i)"
  using assms
proof (induction rules arbitrary: i)
  case Nil
  then show ?case by simp
next
  case (Cons r rules)
  obtain c cfg where r: "r = (c, cfg)" by (cases r)
  show ?case
  proof (cases i)
    case 0
    with Cons.prems(2) show ?thesis
      by (auto simp: r rule_matches_def rule_result_def any_pattern_in_iff)
  next
    case (Suc k)
    have nomatch: "\<not> rule_matches cfg u t"
      using Cons.prems(3) Suc r by force
    have "classify_loop rules u t = rule_result (rules ! k)"
    proof (rule Cons.IH)
      show "k < length rules" using Cons.prems(1) Suc by simp
      show "rule_matches (snd (rules ! k)) u t" using Cons.prems(2) Suc by simp
      show "\<forall>j<k. \<not> rule_matches (snd (rules ! j)) u t"
        using Cons.prems(3) Suc by (metis Suc_less_eq nth_Cons_Suc)
    qed
    with nomatch show ?thesis
      by (simp add: r Suc rule_matches_def any_pattern_in_iff)
  qed
qed

lemma classify_loop_no_match:
  assumes "\<forall>r \<in> set rules. \<not> rule_matches (snd r) u t"
  shows "classify_loop rules u t = (''unclassified'', 7, ''Unknown business intelligence value'')"
  using assms
  by (induction rules) (auto simp: rule_matches_def any_pattern_in_iff)

lemma classify_loop_cases:
  "classify_loop rules u t = (''unclassified'', 7, ''Unknown business intelligence value'') \<or>
   (\<exists>r \<in> set rules. classify_loop rules u t = rule_result r)"
proof (induction rules)
  case Nil
  show ?case by simp
next
  case (Cons r rules)
  obtain c cfg where r: "r = (c, cfg)" by (cases r)
  show ?case
  proof (cases "any_pattern_in (url_patterns cfg) u \<or> any_pattern_in (title_patterns cfg) t")
    case True
    then have "classify_loop (r # rules) u t = rule_result r"
      by (auto simp: r rule_result_def)
    then show ?thesis by simp
  next
    case False
    then have "classify_loop (r # rules) u t = classify_loop rules u t"
      by (simp add: r)
    with Cons.IH show ?thesis by auto
  qed
qed

lemma taxonomy_tiers:
  "\<forall>r \<in> set BI_TAXONOMY. 1 \<le> tier (snd r) \<and> tier (snd r) \<le> 6 \<and> fst r \<noteq> ''unclassified''"
  by (simp add: BI_TAXONOMY_def)

text \<open>
  Claim C3. The classifier walks the taxonomy in the order it is written and answers with
  the first rule one of whose URL patterns occurs in the lower-cased URL or one of whose
  title patterns occurs in the lower-cased title: when rule \<open>i\<close> matches and no rule
  listed before it does, the result is rule \<open>i\<close>'s name, tier and intelligence text,
  whatever later rules match as well.
\<close>

theorem classify_page_bi_first_match:
  assumes "i < length BI_TAXONOMY"
    and "rule_matches (snd (BI_TAXONOMY ! i)) (lower_or_empty url) (lower_or_empty title)"
    and "\<forall>j<i. \<not> rule_matches (snd (BI_TAXONOMY ! j)) (lower_or_empty url) (lower_or_empty title)"
  shows "classify_page_bi url title = rule_result (BI_TAXONOMY ! i)"
  unfolding classify_page_bi_def using assms by (rule classify_loop_first_match)

text \<open>
  The example of the claim: a URL with both \<^verbatim>\<open>/about\<close> and \<^verbatim>\<open>/careers\<close> matches rule 0
  (careers) and rule 3 (about) and is classified as careers; and a page that matches
  rule 3 (about) by its URL and rules 4 (team) and 7 (contact) as well is classified as
  about.
\<close>

theorem classify_page_bi_first_match_witness:
  "classify_page_bi (Some ''https://example.com/About/Careers'') None =
       (''careers'', 1, ''Hiring activity, growth indicators, business expansion signals'')
   \<and> rule_matches (snd (BI_TAXONOMY ! 3))
        (lower_or_empty (Some ''https://example.com/About/Careers'')) (lower_or_empty None)
   \<and> classify_page_bi (Some ''https://example.com/company/contact'') (Some ''Contact Our Team'') =
       (''about'', 1, ''Mission, history, size, business model, values'')
   \<and> rule_matches (snd (BI_TAXONOMY ! 4))
        (lower_or_empty (Some ''https://example.com/company/contact''))
        (lower_or_empty (Some ''Contact Our Team''))
   \<and> rule_matches (snd (BI_TAXONOMY ! 7))
        (lower_or_empty (Some ''https://example.com/company/contact''))
        (lower_or_empty (Some ''Contact Our Team''))"
proof -
  let ?u = "Some ''https://example.com/About/Careers''"
  let ?v = "Some ''https://example.com/company/contact''" and ?t = "Some ''Contact Our Team''"
  have len0: "0 < length BI_TAXONOMY" and len3: "3 < length BI_TAXONOMY"
    by code_simp+
  have m0: "rule_matches (snd (BI_TAXONOMY ! 0)) (lower_or_empty ?u) (lower_or_empty None)"
    by code_simp
  have m3: "rule_matches (snd (BI_TAXONOMY ! 3)) (lower_or_empty ?u) (lower_or_empty None)"
    by code_simp
  have "classify_page_bi ?u None = rule_result (BI_TAXONOMY ! 0)"
    using len0 m0 by (rule classify_page_bi_first_match) simp
  moreover have "rule_result (BI_TAXONOMY ! 0) =
      (''careers'', 1, ''Hiring activity, growth indicators, business expansion signals'')"
    by code_simp
  ultimately have careers: "classify_page_bi ?u None =
      (''careers'', 1, ''Hiring activity, growth indicators, business expansion signals'')"
    by simp
  have n3: "rule_matches (snd (BI_TAXONOMY ! 3)) (lower_or_empty ?v) (lower_or_empty ?t)"
    and n4: "rule_matches (snd (BI_TAXONOMY ! 4)) (lower_or_empty ?v) (lower_or_empty ?t)"
    and n7: "rule_matches (snd (BI_TAXONOMY ! 7)) (lower_or_empty ?v) (lower_or_empty ?t)"
    by code_simp+
  have "\<forall>j \<in> set [0..<3].
      \<not> rule_matches (snd (BI_TAXONOMY ! j)) (lower_or_empty ?v) (lower_or_empty ?t)"
    by code_simp
  then have before:
    "\<forall>j<3. \<not> rule_matches (snd (BI_TAXONOMY ! j)) (lower_or_empty ?v) (lower_or_empty ?t)"
    by simp
  have "classify_page_bi ?v ?t = rule_result (BI_TAXONOMY ! 3)"
    using len3 n3 before by (rule classify_page_bi_first_match)
  moreover have "rule_result (BI_TAXONOMY ! 3) =
      (''about'', 1, ''Mission, history, size, business model, values'')"
    by code_simp
  ultimately have about: "classify_page_bi ?v ?t =
      (''about'', 1, ''Mission, history, size, business model, values'')"
    by simp
  from careers m3 about n4 n7 show ?thesis by blast
qed

text \<open>
  Claim C4. The tier the classifier returns lies between 1 and 7; the category is
  \<^verbatim>\<open>unclassified\<close> exactly when the tier is 7; and no rule of the taxonomy has tier 7.
\<close>

theorem classify_page_bi_tier:
  "(\<forall>r \<in> set BI_TAXONOMY. tier (snd r) \<noteq> 7) \<and>
   (case classify_page_bi url title of (c, t, v) \<Rightarrow>
      1 \<le> t \<and> t \<le> 7 \<and> (c = ''unclassified'' \<longrightarrow> t = 7) \<and> (t = 7 \<longrightarrow> c = ''unclassified''))"
proof -
  let ?u = "lower_or_empty url" and ?t = "lower_or_empty title"
  have a: "\<forall>r \<in> set BI_TAXONOMY. tier (snd r) \<noteq> 7"
    using taxonomy_tiers by fastforce
  consider (dflt) "classify_loop BI_TAXONOMY ?u ?t =
        (''unclassified'', 7, ''Unknown business intelligence value'')"
    | (rule) r where "r \<in> set BI_TAXONOMY" "classify_loop BI_TAXONOMY ?u ?t = rule_result r"
    using classify_loop_cases [of BI_TAXONOMY ?u ?t] by blast
  then have "case classify_page_bi url title of (c, t, v) \<Rightarrow>
      1 \<le> t \<and> t \<le> 7 \<and> (c = ''unclassified'' \<longrightarrow> t = 7) \<and> (t = 7 \<longrightarrow> c = ''unclassified'')"
  proof cases
    case dflt
    then show ?thesis by (simp add: classify_page_bi_def)
  next
    case rule
    with taxonomy_tiers
    have "1 \<le> tier (snd r) \<and> tier (snd r) \<le> 6 \<and> fst r \<noteq> ''unclassified''"
      by blast
    with rule(2) show ?thesis by (simp add: classify_page_bi_def rule_result_def)
  qed
  with a show ?thesis by blast
qed

theorem classify_page_bi_tier_witness:
  "classify_page_bi (Some ''https://example.com/pricing'') (Some ''Pricing'') =
     (''unclassified'', 7, ''Unknown business intelligence value'')
   \<and> classify_page_bi (Some ''https://example.com/legal/terms'') None =
     (''legal'', 6, ''Compliance status (minimal business intelligence)'')
   \<and> list_all (\<lambda>r. tier (snd r) \<noteq> 7) BI_TAXONOMY"
proof -
  have a: "classify_page_bi (Some ''https://example.com/pricing'') (Some ''Pricing'') =
     (''unclassified'', 7, ''Unknown business intelligence value'')"
    by code_simp
  have b: "classify_page_bi (Some ''https://example.com/legal/terms'') None =
     (''legal'', 6, ''Compliance status (minimal business intelligence)'')"
    by code_simp
  have "list_all (\<lambda>r. tier (snd r) \<noteq> 7) BI_TAXONOMY"
    using classify_page_bi_tier [of "Some ''https://example.com/pricing''" "Some ''Pricing''"]
    by (simp add: list_all_iff)
  with a b show ?thesis by blast
qed

text \<open>
  Claim C10. With the URL absent (\<^verbatim>\<open>None\<close>) or empty and the title absent or empty, the
  classifier returns the default triple: no pattern of the taxonomy is the empty string,
  so none occurs in the empty string.
\<close>

theorem classify_page_bi_absent:
  "classify_page_bi None None = (''unclassified'', 7, ''Unknown business intelligence value'')
   \<and> classify_page_bi None (Some []) =
       (''unclassified'', 7, ''Unknown business intelligence value'')
   \<and> classify_page_bi (Some []) None =
       (''unclassified'', 7, ''Unknown business intelligence value'')
   \<and> classify_page_bi (Some []) (Some []) =
       (''unclassified'', 7, ''Unknown business intelligence value'')"
  by code_simp

section \<open>Properties of reconciliation\<close>

lemma count_pages_delete: "count_pages sid (delete_pages sid d) = 0"
  by (simp add: count_pages_def delete_pages_def)

lemma count_pages_update: "count_pages sid (update_structure k now sid' d) = count_pages sid d"
  by (simp add: count_pages_def update_structure_def split: option.splits)

text \<open>
  What the insertion loop leaves: the rows it was given, followed by new rows, as many as
  it counted; the new rows are candidates in the candidates' order, each accepted by the
  store, and none that the store always accepts is missing.
\<close>

lemma insert_args_sid: "insert_args sid page = Some r \<Longrightarrow> wp_structure_id r = sid"
  by (auto simp: insert_args_def split: option.splits prod.splits)

lemma insert_loop_rows:
  "\<exists>new. website_pages (fst (insert_loop accepts sid ps d n)) = website_pages d @ new
     \<and> snd (insert_loop accepts sid ps d n) = n + length new
     \<and> website_structures (fst (insert_loop accepts sid ps d n)) = website_structures d
     \<and> subseq new (candidate_rows sid ps)
     \<and> (\<forall>s \<in> set (candidate_rows sid ps). (\<forall>d0. accepts d0 s) \<longrightarrow> s \<in> set new)
     \<and> (\<forall>s \<in> set new. \<exists>d0. accepts d0 s)
     \<and> (\<forall>s \<in> set new. wp_structure_id s = sid)"
proof (induction ps arbitrary: d n)
  case Nil
  show ?case by (simp add: candidate_rows_def map_filter_simps)
next
  case (Cons page ps)
  show ?case
  proof (cases "insert_args sid page")
    case None
    then have "candidate_rows sid (page # ps) = candidate_rows sid ps"
      by (simp add: candidate_rows_def map_filter_simps)
    with Cons.IH [of d n] None show ?thesis by simp
  next
    case (Some r)
    then have cand: "candidate_rows sid (page # ps) = r # candidate_rows sid ps"
      by (simp add: candidate_rows_def map_filter_simps)
    show ?thesis
    proof (cases "accepts d r")
      case False
      from Cons.IH [of d n] obtain new where new:
        "website_pages (fst (insert_loop accepts sid ps d n)) = website_pages d @ new"
        "snd (insert_loop accepts sid ps d n) = n + length new"
        "website_structures (fst (insert_loop accepts sid ps d n)) = website_structures d"
        "subseq new (candidate_rows sid ps)"
        "\<forall>s \<in> set (candidate_rows sid ps). (\<forall>d0. accepts d0 s) \<longrightarrow> s \<in> set new"
        "\<forall>s \<in> set new. \<exists>d0. accepts d0 s"
        "\<forall>s \<in> set new. wp_structure_id s = sid"
        by blast
      have loop: "insert_loop accepts sid (page # ps) d n = insert_loop accepts sid ps d n"
        using Some False by (simp add: insert_page_def)
      have "subseq new (r # candidate_rows sid ps)"
        using new(4) by (rule list_emb_Cons)
      moreover have "\<forall>s \<in> set (r # candidate_rows sid ps). (\<forall>d0. accepts d0 s) \<longrightarrow> s \<in> set new"
        using new(5) False by auto
      ultimately show ?thesis
        unfolding loop cand using new(1,2,3,6,7) by blast
    next
      case True
      let ?d' = "d\<lparr>website_pages := website_pages d @ [r]\<rparr>"
      from Cons.IH [of ?d' "n + 1"] obtain new where new:
        "website_pages (fst (insert_loop accepts sid ps ?d' (n + 1))) = website_pages ?d' @ new"
        "snd (insert_loop accepts sid ps ?d' (n + 1)) = n + 1 + length new"
        "website_structures (fst (insert_loop accepts sid ps ?d' (n + 1))) = website_structures ?d'"
        "subseq new (candidate_rows sid ps)"
        "\<forall>s \<in> set (candidate_rows sid ps). (\<forall>d0. accepts d0 s) \<longrightarrow> s \<in> set new"
        "\<forall>s \<in> set new. \<exists>d0. accepts d0 s"
        "\<forall>s \<in> set new. wp_structure_id s = sid"
        by blast
      have loop: "insert_loop accepts sid (page # ps) d n = insert_loop accepts sid ps ?d' (n + 1)"
        using Some True by (simp add: insert_page_def)
      have "website_pages (fst (insert_loop accepts sid ps ?d' (n + 1))) = website_pages d @ (r # new)"
        using new(1) by simp
      moreover have "snd (insert_loop accepts sid ps ?d' (n + 1)) = n + length (r # new)"
        using new(2) by simp
      moreover have "website_structures (fst (insert_loop accepts sid ps ?d' (n + 1))) = website_structures d"
        using new(3) by simp
      moreover have "subseq (r # new) (r # candidate_rows sid ps)"
        using new(4) by simp
      moreover have "\<forall>s \<in> set (r # candidate_rows sid ps). (\<forall>d0. accepts d0 s) \<longrightarrow> s \<in> set (r # new)"
        using new(5) by auto
      moreover have "\<forall>s \<in> set (r # new). \<exists>d0. accepts d0 s"
        using new(6) True by auto
      moreover have "\<forall>s \<in> set (r # new). wp_structure_id s = sid"
        using new(7) insert_args_sid [OF Some] by auto
      ultimately show ?thesis
        unfolding loop cand by blast
    qed
  qed
qed

lemma insert_loop_states:
  "insert_loop accepts sid ps d n =
     (last (d # insert_states accepts sid ps d), n + length (insert_states accepts sid ps d))"
  by (induction ps arbitrary: d n) (auto split: option.splits)


lemma reconcile_rows:
  "\<exists>new.
     website_pages (update_structure (int (snd (insert_loop accepts sid ps (delete_pages sid d) 0)))
          now sid (fst (insert_loop accepts sid ps (delete_pages sid d) 0)))
       = kept_rows sid d @ new
     \<and> snd (insert_loop accepts sid ps (delete_pages sid d) 0) = length new
     \<and> count_pages sid
          (update_structure (int (snd (insert_loop accepts sid ps (delete_pages sid d) 0)))
             now sid (fst (insert_loop accepts sid ps (delete_pages sid d) 0)))
         = length new
     \<and> subseq new (candidate_rows sid ps)
     \<and> (\<forall>s \<in> set (candidate_rows sid ps). (\<forall>d0. accepts d0 s) \<longrightarrow> s \<in> set new)
     \<and> (\<forall>s \<in> set new. \<exists>d0. accepts d0 s)
     \<and> (\<forall>st. website_structures d sid = Some st \<longrightarrow>
            map_option total_pages
              (website_structures
                 (update_structure (int (snd (insert_loop accepts sid ps (delete_pages sid d) 0)))
                    now sid (fst (insert_loop accepts sid ps (delete_pages sid d) 0))) sid)
              = Some (int (length new)))"
proof -
  let ?d1 = "delete_pages sid d"
  let ?L = "insert_loop accepts sid ps ?d1 0"
  let ?d3 = "update_structure (int (snd ?L)) now sid (fst ?L)"
  from insert_loop_rows [of accepts sid ps ?d1 0] obtain new where new:
    "website_pages (fst ?L) = website_pages ?d1 @ new"
    "snd ?L = 0 + length new"
    "website_structures (fst ?L) = website_structures ?d1"
    "subseq new (candidate_rows sid ps)"
    "\<forall>s \<in> set (candidate_rows sid ps). (\<forall>d0. accepts d0 s) \<longrightarrow> s \<in> set new"
    "\<forall>s \<in> set new. \<exists>d0. accepts d0 s"
    "\<forall>s \<in> set new. wp_structure_id s = sid"
    by blast
  have pages: "website_pages ?d3 = kept_rows sid d @ new"
    using new(1) by (simp add: update_structure_def delete_pages_def kept_rows_def
        split: option.splits)
  have "filter (\<lambda>r. wp_structure_id r = sid) new = new"
    using new(7) by (simp add: filter_id_conv)
  then have cnt: "count_pages sid ?d3 = length new"
    using pages by (simp add: count_pages_def kept_rows_def)
  have str: "\<forall>st. website_structures d sid = Some st \<longrightarrow>
      map_option total_pages (website_structures ?d3 sid) = Some (int (length new))"
    using new(2,3) by (simp add: update_structure_def delete_pages_def)
  from pages new(2) cnt new(4,5,6) str show ?thesis by auto
qed

lemma insert_loop_filter:
  assumes "\<forall>d0 s. accepts d0 s = ok s"
  shows "website_pages (fst (insert_loop accepts sid ps d n))
           = website_pages d @ filter ok (candidate_rows sid ps)"
  using assms
  by (induction ps arbitrary: d n)
     (auto simp: candidate_rows_def map_filter_simps insert_page_def split: option.splits)

lemma reconcile_rows_replaced:
  "rows_replaced accepts sid ps d
     (update_structure (int (snd (insert_loop accepts sid ps (delete_pages sid d) 0)))
        now sid (fst (insert_loop accepts sid ps (delete_pages sid d) 0)))"
proof -
  let ?d1 = "delete_pages sid d"
  let ?L = "insert_loop accepts sid ps ?d1 0"
  let ?d3 = "update_structure (int (snd ?L)) now sid (fst ?L)"
  from reconcile_rows [of accepts sid ps d now] obtain new where new:
    "website_pages ?d3 = kept_rows sid d @ new"
    "subseq new (candidate_rows sid ps)"
    "\<forall>s \<in> set (candidate_rows sid ps). (\<forall>d0. accepts d0 s) \<longrightarrow> s \<in> set new"
    "\<forall>s \<in> set new. \<exists>d0. accepts d0 s"
    by blast
  have exact: "new = filter ok (candidate_rows sid ps)" if ok: "\<forall>d0 s. accepts d0 s = ok s" for ok
  proof -
    have "website_pages ?d3 = kept_rows sid d @ filter ok (candidate_rows sid ps)"
      using insert_loop_filter [OF ok, of sid ps ?d1 0]
      by (simp add: update_structure_def delete_pages_def kept_rows_def split: option.splits)
    with new(1) show ?thesis by simp
  qed
  show ?thesis
    unfolding rows_replaced_def using new exact by blast
qed

text \<open>
  The committed states of the insertion loop have one more row of the company each.
\<close>

lemma insert_states_count:
  "i < length (insert_states accepts sid ps d) \<Longrightarrow>
     count_pages sid (insert_states accepts sid ps d ! i) = count_pages sid d + Suc i"
proof (induction ps arbitrary: d i)
  case Nil
  then show ?case by simp
next
  case (Cons page ps)
  show ?case
  proof (cases "insert_args sid page")
    case None
    with Cons show ?thesis by simp
  next
    case (Some r)
    show ?thesis
    proof (cases "accepts d r")
      case False
      with Some Cons show ?thesis by (simp add: insert_page_def)
    next
      case True
      let ?d' = "d\<lparr>website_pages := website_pages d @ [r]\<rparr>"
      have states: "insert_states accepts sid (page # ps) d = ?d' # insert_states accepts sid ps ?d'"
        using Some True by (simp add: insert_page_def)
      have one: "count_pages sid ?d' = count_pages sid d + 1"
        using insert_args_sid [OF Some] by (simp add: count_pages_def)
      show ?thesis
      proof (cases i)
        case 0
        with states one show ?thesis by simp
      next
        case (Suc j)
        with Cons.prems states have "j < length (insert_states accepts sid ps ?d')" by simp
        from Cons.IH [OF this] states one Suc show ?thesis by simp
      qed
    qed
  qed
qed

lemma reconciliation_states:
  assumes "states = [d, d1] @ inserts @ [d3]"
    and "count_pages sid d1 = 0"
    and "count_pages sid d3 = length inserts"
    and "\<forall>i < length inserts. count_pages sid (inserts ! i) = Suc i"
  shows "hd states = d \<and> states ! 1 = d1 \<and> count_pages sid (states ! 1) = 0
     \<and> last states = d3
     \<and> length states = 3 + count_pages sid (last states)
     \<and> (\<forall>i. 2 \<le> i \<and> Suc i < length states \<longrightarrow> count_pages sid (states ! i) = i - 1)"
proof -
  have "count_pages sid (states ! i) = i - 1" if "2 \<le> i" "Suc i < length states" for i
  proof -
    from that assms(1) have "i - 2 < length inserts" by simp
    moreover from that assms(1) have "states ! i = inserts ! (i - 2)"
      by (simp add: nth_append nth_Cons' numeral_2_eq_2)
    ultimately show ?thesis using assms(4) that by simp
  qed
  then show ?thesis using assms(1,2,3) by simp
qed

text \<open>
  \<^verbatim>\<open>fix_sitemap_database\<close> returns only when no company has more than 20 pages, and it
  never changes the tables: for the first company with more than 20 pages its
  \<^verbatim>\<open>DELETE ... RETURNING COUNT(*)\<close> raises, before any \<^verbatim>\<open>INSERT\<close> or \<^verbatim>\<open>UPDATE\<close>.
\<close>

lemma fix_sitemap_database_raises:
  "fix_sitemap_database accepts now problem_companies d =
     (list_all (\<lambda>(company, real_pages). length real_pages \<le> 20) problem_companies, d)"
  by (induction accepts now problem_companies d rule: fix_sitemap_database.induct)
     (auto simp: delete_returning_count_def)




text \<open>
  Claim C6. With fewer than 5 candidates \<^verbatim>\<open>fix_company_with_real_pages\<close> and
  \<^verbatim>\<open>fix_company_pages\<close> return failure and send no \<^verbatim>\<open>DELETE\<close>, \<^verbatim>\<open>INSERT\<close> or
  \<^verbatim>\<open>UPDATE\<close>: the tables, with the company's stored pages and its stored page count,
  are what they were.
\<close>

theorem min_yield_guard:
  assumes "length real_pages < 5"
  shows "fst (fix_company_with_real_pages accepts now company (Some real_pages) stats d) = False
       \<and> snd (snd (fix_company_with_real_pages accepts now company (Some real_pages) stats d)) = d
       \<and> fix_company_pages accepts now company (Some real_pages) d = ((False, 0), d)"
  using assms by (simp add: fix_company_with_real_pages_def fix_company_pages_def Let_def)

theorem min_yield_guard_witness:
  "length [sample_page ''https://example.com/a'', sample_page ''https://example.com/b''] < 5
   \<and> fst (fix_company_with_real_pages sample_accepts 7 sample_company
         (Some [sample_page ''https://example.com/a'', sample_page ''https://example.com/b''])
         sample_stats sample_db) = False
   \<and> snd (snd (fix_company_with_real_pages sample_accepts 7 sample_company
         (Some [sample_page ''https://example.com/a'', sample_page ''https://example.com/b''])
         sample_stats sample_db)) = sample_db
   \<and> fix_company_pages sample_accepts 7 sample_company
         (Some [sample_page ''https://example.com/a'', sample_page ''https://example.com/b''])
         sample_db = ((False, 0), sample_db)"
  using min_yield_guard
    [of "[sample_page ''https://example.com/a'', sample_page ''https://example.com/b'']"
        sample_accepts 7 sample_company sample_stats sample_db]
  by simp

text \<open>
  Claim C7. A candidate whose \<^verbatim>\<open>INSERT\<close> the store rejects is skipped, and nothing else
  is lost by it: \<^verbatim>\<open>fix_company_with_real_pages\<close> and \<^verbatim>\<open>fix_company_sitemap\<close>, once
  past their minimum-yield guards, return success whatever the store rejects, and the
  table they leave is the rows of the other companies followed by the rows inserted,
  as \<open>rows_replaced\<close> says: the candidates after a rejected one are still inserted, and
  the rows inserted before it are still there.
\<close>

theorem insert_failure_skipped:
  "(5 \<le> length real_pages \<longrightarrow>
      (case fix_company_with_real_pages accepts now company (Some real_pages) stats d of
         (ok, stats', d') \<Rightarrow>
           ok \<and> rows_replaced accepts (structure_id company) (take 300 real_pages) d d'))
   \<and> (10 \<le> length real_pages \<longrightarrow>
      (case fix_company_sitemap accepts now (Some company) real_pages d of
         (ok, d') \<Rightarrow>
           ok \<and> rows_replaced accepts (structure_id company) (take 200 real_pages) d d'))"
proof (intro conjI impI)
  let ?sid = "structure_id company"
  assume len: "5 \<le> length real_pages"
  let ?L = "insert_loop accepts ?sid (take 300 real_pages) (delete_pages ?sid d) 0"
  let ?d3 = "update_structure (int (snd ?L)) now ?sid (fst ?L)"
  have "rows_replaced accepts ?sid (take 300 real_pages) d ?d3"
    by (rule reconcile_rows_replaced)
  then show "case fix_company_with_real_pages accepts now company (Some real_pages) stats d of
         (ok, stats', d') \<Rightarrow>
           ok \<and> rows_replaced accepts (structure_id company) (take 300 real_pages) d d'"
    using len by (simp add: fix_company_with_real_pages_def Let_def case_prod_beta)
next
  let ?sid = "structure_id company"
  assume len: "10 \<le> length real_pages"
  let ?L = "insert_loop accepts ?sid (take 200 real_pages) (delete_pages ?sid d) 0"
  let ?d3 = "update_structure (int (snd ?L)) now ?sid (fst ?L)"
  have "rows_replaced accepts ?sid (take 200 real_pages) d ?d3"
    by (rule reconcile_rows_replaced)
  then show "case fix_company_sitemap accepts now (Some company) real_pages d of
         (ok, d') \<Rightarrow>
           ok \<and> rows_replaced accepts (structure_id company) (take 200 real_pages) d d'"
    using len by (simp add: fix_company_sitemap_def Let_def case_prod_beta)
qed

theorem insert_failure_skipped_witness:
  "10 \<le> length ([sample_page ''https://example.com/a'', sample_page ''https://example.com/b'']
                   @ sample_page ''https://example.com/a-very-long-page-address''
                   # replicate 7 (sample_page ''https://example.com/c''))
   \<and> \<not> sample_accepts sample_db (sample_row 1 ''https://example.com/a-very-long-page-address'')
   \<and> fst (fix_company_with_real_pages sample_accepts 7 sample_company
         (Some ([sample_page ''https://example.com/a'', sample_page ''https://example.com/b'']
            @ sample_page ''https://example.com/a-very-long-page-address''
            # replicate 7 (sample_page ''https://example.com/c'')))
         sample_stats sample_db) = True
   \<and> rows_replaced sample_accepts (structure_id sample_company)
         (take 200 ([sample_page ''https://example.com/a'', sample_page ''https://example.com/b'']
            @ sample_page ''https://example.com/a-very-long-page-address''
            # replicate 7 (sample_page ''https://example.com/c'')))
         sample_db
         (snd (fix_company_sitemap sample_accepts 7 (Some sample_company)
            ([sample_page ''https://example.com/a'', sample_page ''https://example.com/b'']
               @ sample_page ''https://example.com/a-very-long-page-address''
               # replicate 7 (sample_page ''https://example.com/c''))
            sample_db))
   \<and> map wp_url (website_pages (snd (fix_company_sitemap sample_accepts 7 (Some sample_company)
         ([sample_page ''https://example.com/a'', sample_page ''https://example.com/b'']
            @ sample_page ''https://example.com/a-very-long-page-address''
            # replicate 7 (sample_page ''https://example.com/c''))
         sample_db)))
       = PyStr ''https://other.org/'' # PyStr ''https://example.com/a''
           # PyStr ''https://example.com/b'' # replicate 7 (PyStr ''https://example.com/c'')"
proof -
  let ?ps = "[sample_page ''https://example.com/a'', sample_page ''https://example.com/b'']
               @ sample_page ''https://example.com/a-very-long-page-address''
               # replicate 7 (sample_page ''https://example.com/c'')"
  have len: "10 \<le> length ?ps" by simp
  then have len5: "5 \<le> length ?ps" by simp
  have rej: "\<not> sample_accepts sample_db (sample_row 1 ''https://example.com/a-very-long-page-address'')"
    by (simp add: sample_accepts_def sample_row_def)
  note inst = insert_failure_skipped
    [where real_pages = ?ps and accepts = sample_accepts and now = 7
       and company = sample_company and stats = sample_stats and d = sample_db]
  have ok: "fst (fix_company_with_real_pages sample_accepts 7 sample_company (Some ?ps)
      sample_stats sample_db) = True"
    using inst len5
    by (cases "fix_company_with_real_pages sample_accepts 7 sample_company (Some ?ps)
          sample_stats sample_db") simp
  have rep: "rows_replaced sample_accepts (structure_id sample_company) (take 200 ?ps) sample_db
      (snd (fix_company_sitemap sample_accepts 7 (Some sample_company) ?ps sample_db))"
    using inst len
    by (cases "fix_company_sitemap sample_accepts 7 (Some sample_company) ?ps sample_db") simp
  have rows: "map wp_url (website_pages (snd (fix_company_sitemap sample_accepts 7
        (Some sample_company) ?ps sample_db)))
      = PyStr ''https://other.org/'' # PyStr ''https://example.com/a''
          # PyStr ''https://example.com/b'' # replicate 7 (PyStr ''https://example.com/c'')"
    by code_simp
  show ?thesis by (intro conjI len rej ok rep rows)
qed

text \<open>
  Claim C9, as stated: no reader of the company's pages sees the state in which the old
  rows are deleted and the new ones not yet inserted. With five candidates the committed
  states of \<^verbatim>\<open>fix_company_with_real_pages\<close> hold 1, 0, 1, 2, 3, 4, 5 and 5 rows of the
  company: the second state, which the \<^verbatim>\<open>DELETE\<close> commits, is empty, and a reader
  that queries between two statements sees it or one of the partly filled states after
  it. With a store that rejects every row the run returns success and the empty state is
  also the last one.
\<close>

theorem reader_sees_emptied_state:
  "map (count_pages 1)
     (fix_company_with_real_pages_states sample_accepts 7 sample_company
        (Some (replicate 5 (sample_page ''https://example.com/a''))) sample_db)
     = [1, 0, 1, 2, 3, 4, 5, 5]
   \<and> map (count_pages 1)
     (fix_company_with_real_pages_states sample_rejecting 7 sample_company
        (Some (replicate 5 (sample_page ''https://example.com/a''))) sample_db)
     = [1, 0, 0]
   \<and> fst (fix_company_with_real_pages sample_rejecting 7 sample_company
        (Some (replicate 5 (sample_page ''https://example.com/a''))) sample_stats sample_db) = True
   \<and> count_pages 1
        (snd (snd (fix_company_with_real_pages sample_rejecting 7 sample_company
           (Some (replicate 5 (sample_page ''https://example.com/a''))) sample_stats sample_db))) = 0"
  by code_simp

text \<open>
  Claim C9, amended: the statements of a reconciliation commit one by one. For a run of
  \<^verbatim>\<open>fix_company_with_real_pages\<close> or \<^verbatim>\<open>fix_company_sitemap\<close> that passes the
  minimum-yield guard, the committed states are: the tables before the run; the tables
  after the \<^verbatim>\<open>DELETE\<close>, in which the company has no page; one state for each
  \<^verbatim>\<open>INSERT\<close> that succeeded, in which the company has 1, 2, ... pages; and the tables
  after the \<^verbatim>\<open>UPDATE\<close>, which are the tables the function leaves.
\<close>

theorem statements_commit_one_by_one:
  "(5 \<le> length real_pages \<longrightarrow>
      hd (fix_company_with_real_pages_states accepts now company (Some real_pages) d) = d
      \<and> fix_company_with_real_pages_states accepts now company (Some real_pages) d ! 1
          = delete_pages (structure_id company) d
      \<and> count_pages (structure_id company)
          (fix_company_with_real_pages_states accepts now company (Some real_pages) d ! 1) = 0
      \<and> last (fix_company_with_real_pages_states accepts now company (Some real_pages) d)
          = snd (snd (fix_company_with_real_pages accepts now company (Some real_pages) stats d))
      \<and> length (fix_company_with_real_pages_states accepts now company (Some real_pages) d)
          = 3 + count_pages (structure_id company)
                  (last (fix_company_with_real_pages_states accepts now company (Some real_pages) d))
      \<and> (\<forall>i. 2 \<le> i \<and>
               Suc i < length (fix_company_with_real_pages_states accepts now company
                                 (Some real_pages) d) \<longrightarrow>
             count_pages (structure_id company)
               (fix_company_with_real_pages_states accepts now company (Some real_pages) d ! i)
               = i - 1))
   \<and> (10 \<le> length real_pages \<longrightarrow>
      hd (fix_company_sitemap_states accepts now (Some company) real_pages d) = d
      \<and> fix_company_sitemap_states accepts now (Some company) real_pages d ! 1
          = delete_pages (structure_id company) d
      \<and> count_pages (structure_id company)
          (fix_company_sitemap_states accepts now (Some company) real_pages d ! 1) = 0
      \<and> last (fix_company_sitemap_states accepts now (Some company) real_pages d)
          = snd (fix_company_sitemap accepts now (Some company) real_pages d)
      \<and> length (fix_company_sitemap_states accepts now (Some company) real_pages d)
          = 3 + count_pages (structure_id company)
                  (last (fix_company_sitemap_states accepts now (Some company) real_pages d))
      \<and> (\<forall>i. 2 \<le> i \<and>
               Suc i < length (fix_company_sitemap_states accepts now (Some company) real_pages d) \<longrightarrow>
             count_pages (structure_id company)
               (fix_company_sitemap_states accepts now (Some company) real_pages d ! i)
               = i - 1))"
proof -
  let ?sid = "structure_id company"
  let ?d1 = "delete_pages ?sid d"
  have trace: "hd states = d \<and> states ! 1 = ?d1 \<and> count_pages ?sid (states ! 1) = 0
       \<and> last states = final
       \<and> length states = 3 + count_pages ?sid (last states)
       \<and> (\<forall>i. 2 \<le> i \<and> Suc i < length states \<longrightarrow> count_pages ?sid (states ! i) = i - 1)"
    if states: "states = [d, ?d1] @ insert_states accepts ?sid ps ?d1
          @ [update_structure (int (length (insert_states accepts ?sid ps ?d1))) now ?sid
               (last (?d1 # insert_states accepts ?sid ps ?d1))]"
      and final: "final = update_structure (int (snd (insert_loop accepts ?sid ps ?d1 0))) now ?sid
          (fst (insert_loop accepts ?sid ps ?d1 0))"
    for states final ps
  proof -
    let ?ins = "insert_states accepts ?sid ps ?d1"
    let ?d3 = "update_structure (int (length ?ins)) now ?sid (last (?d1 # ?ins))"
    have loop: "insert_loop accepts ?sid ps ?d1 0 = (last (?d1 # ?ins), length ?ins)"
      by (simp add: insert_loop_states)
    have fin: "final = ?d3" using final loop by simp
    have zero: "count_pages ?sid ?d1 = 0" by (rule count_pages_delete)
    have each: "\<forall>i < length ?ins. count_pages ?sid (?ins ! i) = Suc i"
      using insert_states_count [of _ accepts ?sid ps ?d1] zero by simp
    have "count_pages ?sid (last (?d1 # ?ins)) = length ?ins"
    proof (cases "?ins = []")
      case True
      with zero show ?thesis by simp
    next
      case False
      then have "last (?d1 # ?ins) = ?ins ! (length ?ins - 1)"
        by (simp add: last_conv_nth)
      with each False show ?thesis by simp
    qed
    then have cnt: "count_pages ?sid ?d3 = length ?ins"
      by (simp add: count_pages_update)
    show ?thesis
      unfolding fin by (rule reconciliation_states [OF states zero cnt each])
  qed
  show ?thesis
  proof (intro conjI impI)
    assume "5 \<le> length real_pages"
    then have s: "fix_company_with_real_pages_states accepts now company (Some real_pages) d =
        [d, ?d1] @ insert_states accepts ?sid (take 300 real_pages) ?d1
          @ [update_structure (int (length (insert_states accepts ?sid (take 300 real_pages) ?d1)))
               now ?sid (last (?d1 # insert_states accepts ?sid (take 300 real_pages) ?d1))]"
      and f: "snd (snd (fix_company_with_real_pages accepts now company (Some real_pages) stats d)) =
        update_structure (int (snd (insert_loop accepts ?sid (take 300 real_pages) ?d1 0))) now ?sid
          (fst (insert_loop accepts ?sid (take 300 real_pages) ?d1 0))"
      by (simp_all add: fix_company_with_real_pages_states_def fix_company_with_real_pages_def
          Let_def case_prod_beta)
    note t = trace [OF s f]
    from t show "hd (fix_company_with_real_pages_states accepts now company (Some real_pages) d) = d"
      by blast
    from t show "fix_company_with_real_pages_states accepts now company (Some real_pages) d ! 1
          = delete_pages (structure_id company) d" by blast
    from t show "count_pages (structure_id company)
          (fix_company_with_real_pages_states accepts now company (Some real_pages) d ! 1) = 0"
      by blast
    from t show "last (fix_company_with_real_pages_states accepts now company (Some real_pages) d)
          = snd (snd (fix_company_with_real_pages accepts now company (Some real_pages) stats d))"
      by blast
    from t show "length (fix_company_with_real_pages_states accepts now company (Some real_pages) d)
          = 3 + count_pages (structure_id company)
                  (last (fix_company_with_real_pages_states accepts now company (Some real_pages) d))"
      by blast
    from t show "\<forall>i. 2 \<le> i \<and>
               Suc i < length (fix_company_with_real_pages_states accepts now company
                                 (Some real_pages) d) \<longrightarrow>
             count_pages (structure_id company)
               (fix_company_with_real_pages_states accepts now company (Some real_pages) d ! i)
               = i - 1" by blast
  next
    assume "10 \<le> length real_pages"
    then have s: "fix_company_sitemap_states accepts now (Some company) real_pages d =
        [d, ?d1] @ insert_states accepts ?sid (take 200 real_pages) ?d1
          @ [update_structure (int (length (insert_states accepts ?sid (take 200 real_pages) ?d1)))
               now ?sid (last (?d1 # insert_states accepts ?sid (take 200 real_pages) ?d1))]"
      and f: "snd (fix_company_sitemap accepts now (Some company) real_pages d) =
        update_structure (int (snd (insert_loop accepts ?sid (take 200 real_pages) ?d1 0))) now ?sid
          (fst (insert_loop accepts ?sid (take 200 real_pages) ?d1 0))"
      by (simp_all add: fix_company_sitemap_states_def fix_company_sitemap_def
          Let_def case_prod_beta)
    note t = trace [OF s f]
    from t show "hd (fix_company_sitemap_states accepts now (Some company) real_pages d) = d"
      by blast
    from t show "fix_company_sitemap_states accepts now (Some company) real_pages d ! 1
          = delete_pages (structure_id company) d" by blast
    from t show "count_pages (structure_id company)
          (fix_company_sitemap_states accepts now (Some company) real_pages d ! 1) = 0" by blast
    from t show "last (fix_company_sitemap_states accepts now (Some company) real_pages d)
          = snd (fix_company_sitemap accepts now (Some company) real_pages d)" by blast
    from t show "length (fix_company_sitemap_states accepts now (Some company) real_pages d)
          = 3 + count_pages (structure_id company)
                  (last (fix_company_sitemap_states accepts now (Some company) real_pages d))"
      by blast
    from t show "\<forall>i. 2 \<le> i \<and>
               Suc i < length (fix_company_sitemap_states accepts now (Some company) real_pages d) \<longrightarrow>
             count_pages (structure_id company)
               (fix_company_sitemap_states accepts now (Some company) real_pages d ! i)
               = i - 1" by blast
  qed
qed

theorem statements_commit_one_by_one_witness:
  "5 \<le> length (replicate 5 (sample_page ''https://example.com/a''))
   \<and> count_pages (structure_id sample_company)
       (fix_company_with_real_pages_states sample_accepts 7 sample_company
          (Some (replicate 5 (sample_page ''https://example.com/a''))) sample_db ! 1) = 0
   \<and> length (fix_company_with_real_pages_states sample_accepts 7 sample_company
          (Some (replicate 5 (sample_page ''https://example.com/a''))) sample_db) = 8
   \<and> 10 \<le> length (replicate 10 (sample_page ''https://example.com/a''))
   \<and> count_pages (structure_id sample_company)
       (fix_company_sitemap_states sample_accepts 7 (Some sample_company)
          (replicate 10 (sample_page ''https://example.com/a'')) sample_db ! 1) = 0
   \<and> length (fix_company_sitemap_states sample_accepts 7 (Some sample_company)
          (replicate 10 (sample_page ''https://example.com/a'')) sample_db) = 13"
proof -
  have len5: "5 \<le> length (replicate 5 (sample_page ''https://example.com/a''))"
    and len10: "10 \<le> length (replicate 10 (sample_page ''https://example.com/a''))"
    by simp_all
  note a = statements_commit_one_by_one
    [where real_pages = "replicate 5 (sample_page ''https://example.com/a'')"
       and accepts = sample_accepts and now = 7 and company = sample_company
       and d = sample_db and stats = sample_stats]
  note b = statements_commit_one_by_one
    [where real_pages = "replicate 10 (sample_page ''https://example.com/a'')"
       and accepts = sample_accepts and now = 7 and company = sample_company
       and d = sample_db and stats = sample_stats]
  have c1: "count_pages (structure_id sample_company)
       (fix_company_with_real_pages_states sample_accepts 7 sample_company
          (Some (replicate 5 (sample_page ''https://example.com/a''))) sample_db ! 1) = 0"
    using a len5 by blast
  have c2: "count_pages (structure_id sample_company)
       (fix_company_sitemap_states sample_accepts 7 (Some sample_company)
          (replicate 10 (sample_page ''https://example.com/a'')) sample_db ! 1) = 0"
    using b len10 by blast
  have l1: "length (fix_company_with_real_pages_states sample_accepts 7 sample_company
          (Some (replicate 5 (sample_page ''https://example.com/a''))) sample_db) = 8"
    by code_simp
  have l2: "length (fix_company_sitemap_states sample_accepts 7 (Some sample_company)
          (replicate 10 (sample_page ''https://example.com/a'')) sample_db) = 13"
    by code_simp
  show ?thesis by (intro conjI len5 c1 l1 len10 c2 l2)
qed

section \<open>Properties of the page extractors\<close>

lemma str_in_lower: "str_in p u \<Longrightarrow> str_in (lower p) (lower u)"
proof -
  assume "str_in p u"
  then obtain ps ss where "u = ps @ p @ ss"
    by (auto simp: str_in_sublist sublist_def)
  then have "lower u = lower ps @ lower p @ lower ss"
    by (simp add: lower_def)
  then show ?thesis
    unfolding str_in_sublist sublist_def by blast
qed

lemma lower_sitemap: "lower ''sitemap'' = ''sitemap''" and lower_xml: "lower ''.xml'' = ''.xml''"
  by code_simp+

lemma endswith_str_in: "endswith u p \<Longrightarrow> str_in p u"
  by (simp add: endswith_suffix str_in_sublist)

lemma no_sitemap: "\<not> str_in ''sitemap'' (lower u) \<Longrightarrow> \<not> str_in ''sitemap'' u"
  using str_in_lower [of "''sitemap''" u] by (simp only: lower_sitemap) blast

lemma no_xml: "\<not> str_in ''.xml'' (lower u) \<Longrightarrow> \<not> endswith u ''.xml''"
  using str_in_lower [of "''.xml''" u] endswith_str_in [of u "''.xml''"]
  by (simp only: lower_xml) blast

lemma page_data_url: "page_data L url_elem url = Some page \<Longrightarrow> page ''url'' = Some (PyStr url)"
  by (auto simp: page_data_def Let_def split: option.splits)

lemma extract_loop_real:
  assumes "\<forall>p \<in> set pages. real_url domain p"
  shows "\<forall>p \<in> set (extract_loop L domain url_elements pages). real_url domain p"
  using assms
proof (induction url_elements arbitrary: pages)
  case Nil
  then show ?case by simp
next
  case (Cons url_elem rest)
  show ?case
  proof (cases "find_xml (ns ''loc'') url_elem")
    case None
    with Cons show ?thesis by simp
  next
    case (Some loc_elem)
    show ?thesis
    proof (cases "elem_text loc_elem")
      case None
      with Some Cons show ?thesis by simp
    next
      case (Some loc_text)
      let ?url = "strip loc_text"
      let ?ok = "str_in domain ?url \<and> \<not> str_in ''sitemap'' (lower ?url) \<and>
                 \<not> str_in ''.xml'' (lower ?url) \<and>
                 (startswith ?url ''http://'' \<or> startswith ?url ''https://'')"
      show ?thesis
      proof (cases "loc_text \<noteq> [] \<and> ?ok")
        case False
        with \<open>find_xml (ns ''loc'') url_elem = Some loc_elem\<close> Some Cons show ?thesis
          by (auto simp: Let_def)
      next
        case True
        show ?thesis
        proof (cases "page_data L url_elem ?url")
          case None
          with True \<open>find_xml (ns ''loc'') url_elem = Some loc_elem\<close> Some Cons.prems
          show ?thesis by (simp add: Let_def)
        next
          case (Some page)
          have "real_url domain page"
            using True page_data_url [OF Some] no_sitemap [of ?url] no_xml [of ?url]
            by (auto simp: real_url_def)
          with Cons.prems have "\<forall>p \<in> set (pages @ [page]). real_url domain p" by simp
          from Cons.IH [OF this] True Some
            \<open>find_xml (ns ''loc'') url_elem = Some loc_elem\<close> \<open>elem_text loc_elem = Some loc_text\<close>
          show ?thesis by (simp add: Let_def)
        qed
      qed
    qed
  qed
qed

lemma extract_real_pages_from_xml_real:
  "\<forall>p \<in> set (extract_real_pages_from_xml L xml_content domain). real_url domain p"
  using extract_loop_real [of "[]" domain L]
  by (auto simp: extract_real_pages_from_xml_def split: option.splits)

lemma real_page_of_real: "real_page_of domain url_elem = Some page \<Longrightarrow> real_url domain page"
proof -
  assume a: "real_page_of domain url_elem = Some page"
  then obtain u rest where page: "page = rest ++ get_enhanced_bi_classification u"
    and u: "rest ''url'' = Some (PyStr u)" "str_in domain u" "\<not> str_in ''sitemap'' (lower u)"
      "\<not> str_in ''.xml'' (lower u)" "startswith u ''http://'' \<or> startswith u ''https://''"
    by (auto simp: real_page_of_def Let_def split: option.splits if_splits)
  have "page ''url'' = Some (PyStr u)"
    using page u(1)
    by (simp add: get_enhanced_bi_classification_def bi_dict_def Let_def map_add_def)
  with u no_sitemap [of u] no_xml [of u] show ?thesis
    unfolding real_url_def by blast
qed

lemma real_pages_loop_real:
  assumes "\<forall>p \<in> set pages. real_url domain p"
  shows "\<forall>p \<in> set (real_pages_loop domain url_elements pages). real_url domain p"
  using assms
proof (induction url_elements arbitrary: pages)
  case Nil
  then show ?case by simp
next
  case (Cons url_elem rest)
  show ?case
  proof (cases "real_page_of domain url_elem")
    case None
    with Cons show ?thesis by simp
  next
    case (Some page)
    then have "real_url domain page" by (rule real_page_of_real)
    with Cons.prems have "\<forall>p \<in> set (pages @ [page]). real_url domain p" by simp
    from Cons.IH [OF this] Some show ?thesis by simp
  qed
qed

lemma parse_sitemap_for_real_pages_real:
  "\<forall>p \<in> set (parse_sitemap_for_real_pages xml_content domain). real_url domain p"
  using real_pages_loop_real [of "[]" domain]
  by (auto simp: parse_sitemap_for_real_pages_def split: option.splits)

lemma listed_page_of_listed:
  "listed_page_of domain url_elem = Some page \<Longrightarrow> listed_url domain page"
  using no_sitemap
  by (auto simp: listed_page_of_def listed_url_def Let_def
      split: option.splits if_splits prod.splits)

lemma extract_urls_loop_listed:
  assumes "\<forall>p \<in> set pages. listed_url domain p"
  shows "\<forall>p \<in> set (extract_urls_loop domain url_elements pages). listed_url domain p"
  using assms
proof (induction url_elements arbitrary: pages)
  case Nil
  then show ?case by simp
next
  case (Cons url_elem rest)
  show ?case
  proof (cases "listed_page_of domain url_elem")
    case None
    with Cons show ?thesis by simp
  next
    case (Some page)
    then have "listed_url domain page" by (rule listed_page_of_listed)
    with Cons.prems have "\<forall>p \<in> set (pages @ [page]). listed_url domain p" by simp
    from Cons.IH [OF this] Some show ?thesis by simp
  qed
qed

lemma extract_urls_from_sitemap_xml_listed:
  "\<forall>p \<in> set (extract_urls_from_sitemap_xml xml_content domain). listed_url domain p"
  using extract_urls_loop_listed [of "[]" domain]
  by (auto simp: extract_urls_from_sitemap_xml_def split: option.splits)

text \<open>
  Claim C1. No yielded URL contains \<^verbatim>\<open>sitemap\<close> or ends in \<^verbatim>\<open>.xml\<close>. The extractors of
  advanced\_sitemap\_parser.py and phase3\_scaled\_processor.py keep to that
  (\<open>extract_real_pages_from_xml_real\<close>, \<open>parse_sitemap_for_real_pages_real\<close>). The
  extractor of database\_sitemap\_fixer.py only tests for \<^verbatim>\<open>sitemap\<close>
  (\<open>extract_urls_from_sitemap_xml_listed\<close>): it yields a URL that ends in \<^verbatim>\<open>.xml\<close>.
\<close>

theorem extract_urls_yields_xml_url:
  "urls_of
     (extract_urls_from_sitemap_xml (Some (sample_urlset [''https://example.com/feed.xml'']))
        ''example.com'')
   = [Some (PyStr ''https://example.com/feed.xml'')]
   \<and> endswith ''https://example.com/feed.xml'' ''.xml''"
  by code_simp

text \<open>
  Claim C2, as stated: no URL whose host is outside the domain is yielded. The extractors
  test \<^verbatim>\<open>domain in url\<close>, on the whole URL: a URL of another host that names the domain
  in its query is yielded.
\<close>

theorem host_outside_domain_yielded:
  "urls_of
     (extract_real_pages_from_xml sample_lib
        (Some (sample_urlset [''https://other.org/?ref=example.com''])) ''example.com'')
   = [Some (PyStr ''https://other.org/?ref=example.com'')]
   \<and> urls_of
     (parse_sitemap_for_real_pages
        (Some (sample_urlset [''https://other.org/?ref=example.com''])) ''example.com'')
   = [Some (PyStr ''https://other.org/?ref=example.com'')]
   \<and> url_host ''https://other.org/?ref=example.com'' = ''other.org''
   \<and> \<not> host_in_domain ''other.org'' ''example.com''"
  by code_simp

text \<open>
  Claim C2, amended: every entry that \<^verbatim>\<open>extract_real_pages_from_xml\<close> or
  \<^verbatim>\<open>parse_sitemap_for_real_pages\<close> yields has a URL that contains the domain string
  somewhere and starts with \<^verbatim>\<open>http://\<close> or \<^verbatim>\<open>https://\<close>.
\<close>

theorem yielded_url_contains_domain:
  "(\<forall>p \<in> set (extract_real_pages_from_xml L xml_content domain).
      \<exists>u. p ''url'' = Some (PyStr u) \<and> str_in domain u \<and>
          (startswith u ''http://'' \<or> startswith u ''https://''))
   \<and> (\<forall>p \<in> set (parse_sitemap_for_real_pages xml_content domain).
      \<exists>u. p ''url'' = Some (PyStr u) \<and> str_in domain u \<and>
          (startswith u ''http://'' \<or> startswith u ''https://''))"
proof (intro conjI ballI)
  fix p assume "p \<in> set (extract_real_pages_from_xml L xml_content domain)"
  with extract_real_pages_from_xml_real [of L xml_content domain]
  have "real_url domain p" by blast
  then show "\<exists>u. p ''url'' = Some (PyStr u) \<and> str_in domain u \<and>
          (startswith u ''http://'' \<or> startswith u ''https://'')"
    unfolding real_url_def by blast
next
  fix p assume "p \<in> set (parse_sitemap_for_real_pages xml_content domain)"
  with parse_sitemap_for_real_pages_real [of xml_content domain]
  have "real_url domain p" by blast
  then show "\<exists>u. p ''url'' = Some (PyStr u) \<and> str_in domain u \<and>
          (startswith u ''http://'' \<or> startswith u ''https://'')"
    unfolding real_url_def by blast
qed

theorem yielded_url_contains_domain_witness:
  "urls_of
     (extract_real_pages_from_xml sample_lib
        (Some (sample_urlset [''https://example.com/about'', ''https://example.com/sitemap.xml'']))
        ''example.com'')
   = [Some (PyStr ''https://example.com/about'')]
   \<and> list_all (\<lambda>p. \<exists>u. p ''url'' = Some (PyStr u) \<and> str_in ''example.com'' u \<and>
          (startswith u ''http://'' \<or> startswith u ''https://''))
       (extract_real_pages_from_xml sample_lib
          (Some (sample_urlset [''https://example.com/about'', ''https://example.com/sitemap.xml'']))
          ''example.com'')
   \<and> urls_of
     (parse_sitemap_for_real_pages
        (Some (sample_urlset [''https://example.com/about'', ''https://example.com/sitemap.xml'']))
        ''example.com'')
   = [Some (PyStr ''https://example.com/about'')]
   \<and> list_all (\<lambda>p. \<exists>u. p ''url'' = Some (PyStr u) \<and> str_in ''example.com'' u \<and>
          (startswith u ''http://'' \<or> startswith u ''https://''))
       (parse_sitemap_for_real_pages
          (Some (sample_urlset [''https://example.com/about'', ''https://example.com/sitemap.xml'']))
          ''example.com'')"
proof -
  let ?doc = "Some (sample_urlset [''https://example.com/about'', ''https://example.com/sitemap.xml''])"
  let ?P = "\<lambda>p. \<exists>u. p ''url'' = Some (PyStr u) \<and> str_in ''example.com'' u \<and>
          (startswith u ''http://'' \<or> startswith u ''https://'')"
  have a: "urls_of (extract_real_pages_from_xml sample_lib ?doc ''example.com'')
      = [Some (PyStr ''https://example.com/about'')]"
    by code_simp
  have b: "urls_of (parse_sitemap_for_real_pages ?doc ''example.com'')
      = [Some (PyStr ''https://example.com/about'')]"
    by code_simp
  note inst = yielded_url_contains_domain [of sample_lib ?doc "''example.com''"]
  have c: "list_all ?P (extract_real_pages_from_xml sample_lib ?doc ''example.com'')"
    unfolding list_all_iff by (rule conjunct1 [OF inst])
  have d: "list_all ?P (parse_sitemap_for_real_pages ?doc ''example.com'')"
    unfolding list_all_iff by (rule conjunct2 [OF inst])
  show ?thesis
    by (intro conjI a b c d)
qed


section \<open>Properties of the sitemap walks\<close>

lemma update_bi_real: "real_url domain p \<Longrightarrow> update_bi p \<noteq> None"
  by (auto simp: real_url_def update_bi_def)

lemma take_take_append: "take n (take n xs @ ys) = take n (xs @ ys)"
  by (cases "n \<le> length xs") auto

lemma add_sub_pages_take:
  assumes "\<forall>p \<in> set pages. update_bi p \<noteq> None"
  shows "add_sub_pages limit_pages pages real_pages =
     (if limit_pages \<le> int (length real_pages) then real_pages
      else take (nat limit_pages) (real_pages @ List.map_filter update_bi pages))"
  using assms
proof (induction pages arbitrary: real_pages)
  case Nil
  then show ?case by (simp add: map_filter_simps)
next
  case (Cons page rest)
  show ?case
  proof (cases "limit_pages \<le> int (length real_pages)")
    case True
    then show ?thesis by simp
  next
    case False
    from Cons.prems obtain page' where page': "update_bi page = Some page'" by auto
    have rest: "\<forall>p \<in> set rest. update_bi p \<noteq> None" using Cons.prems by simp
    have "add_sub_pages limit_pages (page # rest) real_pages =
        add_sub_pages limit_pages rest (real_pages @ [page'])"
      using False page' by simp
    also have "\<dots> = (if limit_pages \<le> int (length (real_pages @ [page'])) then real_pages @ [page']
        else take (nat limit_pages) ((real_pages @ [page']) @ List.map_filter update_bi rest))"
      by (rule Cons.IH [OF rest])
    also have "\<dots> = take (nat limit_pages) (real_pages @ List.map_filter update_bi (page # rest))"
    proof (cases "limit_pages \<le> int (length (real_pages @ [page']))")
      case True
      with False have "nat limit_pages = Suc (length real_pages)" by simp
      then show ?thesis using True page' by (simp add: map_filter_simps)
    next
      case False
      then show ?thesis using page' by (simp add: map_filter_simps)
    qed
    finally show ?thesis using False by simp
  qed
qed

lemma sub_sitemaps_loop_step:
  "sub_sitemaps_loop L fetch domain limit_pages (sitemap_elem # rest) real_pages =
     (if limit_pages \<le> int (length real_pages) then real_pages
      else sub_sitemaps_loop L fetch domain limit_pages rest
             (take (nat limit_pages)
                (real_pages @ classified_sub_pages L fetch domain sitemap_elem)))"
proof (cases "limit_pages \<le> int (length real_pages)")
  case True
  then show ?thesis by simp
next
  case False
  show ?thesis
  proof (cases "sub_document fetch sitemap_elem")
    case None
    then have "classified_sub_pages L fetch domain sitemap_elem = []"
      by (simp add: classified_sub_pages_def)
    moreover have "sub_sitemaps_loop L fetch domain limit_pages (sitemap_elem # rest) real_pages =
        sub_sitemaps_loop L fetch domain limit_pages rest real_pages"
      using None False
      by (auto simp: sub_document_def split: option.splits response.splits if_splits)
    ultimately show ?thesis using False by simp
  next
    case (Some sub_xml)
    let ?pages = "extract_real_pages_from_xml L sub_xml domain"
    have all: "\<forall>p \<in> set ?pages. update_bi p \<noteq> None"
      using extract_real_pages_from_xml_real [of L sub_xml domain] update_bi_real by blast
    have "sub_sitemaps_loop L fetch domain limit_pages (sitemap_elem # rest) real_pages =
        sub_sitemaps_loop L fetch domain limit_pages rest
          (add_sub_pages limit_pages ?pages real_pages)"
      using Some False
      by (auto simp: sub_document_def split: option.splits response.splits if_splits)
    moreover have "classified_sub_pages L fetch domain sitemap_elem = List.map_filter update_bi ?pages"
      using Some by (simp add: classified_sub_pages_def)
    ultimately show ?thesis
      using False add_sub_pages_take [OF all, of limit_pages real_pages] by simp
  qed
qed

lemma sub_sitemaps_loop_take:
  "sub_sitemaps_loop L fetch domain limit_pages sitemap_elements real_pages =
     (if limit_pages \<le> int (length real_pages) then real_pages
      else take (nat limit_pages)
             (real_pages @ concat (map (classified_sub_pages L fetch domain) sitemap_elements)))"
proof (induction sitemap_elements arbitrary: real_pages)
  case Nil
  then show ?case by simp
next
  case (Cons sitemap_elem rest)
  let ?c = "classified_sub_pages L fetch domain sitemap_elem"
  let ?r = "concat (map (classified_sub_pages L fetch domain) rest)"
  show ?case
  proof (cases "limit_pages \<le> int (length real_pages)")
    case True
    then show ?thesis by (simp add: sub_sitemaps_loop_step)
  next
    case False
    let ?acc = "take (nat limit_pages) (real_pages @ ?c)"
    have step: "sub_sitemaps_loop L fetch domain limit_pages (sitemap_elem # rest) real_pages =
        sub_sitemaps_loop L fetch domain limit_pages rest ?acc"
      using False by (subst sub_sitemaps_loop_step) simp
    show ?thesis
    proof (cases "limit_pages \<le> int (length ?acc)")
      case True
      then have full: "nat limit_pages \<le> length (real_pages @ ?c)" by simp
      have "sub_sitemaps_loop L fetch domain limit_pages rest ?acc = ?acc"
        using True Cons.IH [of ?acc] by simp
      moreover have "take (nat limit_pages) (real_pages @ ?c @ ?r) = ?acc"
        using full by (metis append.assoc append_Nil2 diff_is_0_eq take0 take_append)
      ultimately show ?thesis using step False by simp
    next
      case short: False
      then have "sub_sitemaps_loop L fetch domain limit_pages rest ?acc =
          take (nat limit_pages) (?acc @ ?r)"
        using Cons.IH [of ?acc] by simp
      also have "\<dots> = take (nat limit_pages) ((real_pages @ ?c) @ ?r)"
        by (rule take_take_append)
      finally show ?thesis using step False by simp
    qed
  qed
qed

lemma direct_loop_length: "length (direct_loop pages real_pages) \<le> length real_pages + length pages"
proof (induction pages arbitrary: real_pages)
  case Nil
  show ?case by simp
next
  case (Cons page rest)
  show ?case
  proof (cases "update_bi page")
    case None
    then show ?thesis by simp
  next
    case (Some page')
    with Cons.IH [of "real_pages @ [page']"] show ?thesis by simp
  qed
qed

lemma parse_company_real_pages_bound:
  assumes "0 \<le> limit_pages"
  shows "int (length (parse_company_real_pages L fetch domain limit_pages)) \<le> limit_pages"
proof -
  have idx: "int (length (sub_sitemaps_loop L fetch domain limit_pages es [])) \<le> limit_pages" for es
    using assms by (auto simp: sub_sitemaps_loop_take)
  have dir: "int (length (direct_loop (slice_to limit_pages ps) [])) \<le> limit_pages" for ps
  proof -
    have "length (direct_loop (slice_to limit_pages ps) []) \<le> length (slice_to limit_pages ps)"
      using direct_loop_length [of "slice_to limit_pages ps" "[]"] by simp
    also have "\<dots> \<le> nat limit_pages" using assms by (simp add: slice_to_def)
    finally show ?thesis using assms by simp
  qed
  show ?thesis
    using assms idx dir
    by (simp add: parse_company_real_pages_def Let_def split: option.splits response.splits)
qed

lemma parse_company_real_pages_index:
  assumes "find_main_sitemap fetch domain = Some main_sitemap_url"
    and "fetch main_sitemap_url = Response 200 (Some root)"
    and "findall (ns ''sitemap'') root \<noteq> []"
  shows "parse_company_real_pages L fetch domain limit_pages =
     take (nat limit_pages)
       (concat (map (classified_sub_pages L fetch domain) (findall (ns ''sitemap'') root)))"
  using assms by (simp add: parse_company_real_pages_def sub_sitemaps_loop_take)

lemma index_pages_loop_step:
  "index_pages_loop fetch domain (sitemap_elem # rest) all_pages =
     (if sub_document fetch sitemap_elem \<noteq> None \<and>
         300 \<le> length (all_pages @ real_sub_pages fetch domain sitemap_elem)
      then all_pages @ real_sub_pages fetch domain sitemap_elem
      else index_pages_loop fetch domain rest
             (all_pages @ real_sub_pages fetch domain sitemap_elem))"
  by (auto simp: sub_document_def real_sub_pages_def Let_def
      split: option.splits response.splits)

lemma index_pages_loop_prefix:
  assumes "length all_pages < 300"
  shows "\<exists>k \<le> length sitemap_elements.
     index_pages_loop fetch domain sitemap_elements all_pages =
       all_pages @ concat (map (real_sub_pages fetch domain) (take k sitemap_elements))
     \<and> (\<forall>j<k. length (all_pages @ concat (map (real_sub_pages fetch domain)
                                               (take j sitemap_elements))) < 300)
     \<and> (k < length sitemap_elements \<longrightarrow>
          300 \<le> length (index_pages_loop fetch domain sitemap_elements all_pages))"
  using assms
proof (induction sitemap_elements arbitrary: all_pages)
  case Nil
  then show ?case by simp
next
  case (Cons sitemap_elem rest)
  let ?c = "real_sub_pages fetch domain sitemap_elem"
  let ?f = "real_sub_pages fetch domain"
  show ?case
  proof (cases "sub_document fetch sitemap_elem \<noteq> None \<and> 300 \<le> length (all_pages @ ?c)")
    case True
    then have res: "index_pages_loop fetch domain (sitemap_elem # rest) all_pages = all_pages @ ?c"
      by (subst index_pages_loop_step) simp
    have "(1::nat) \<le> length (sitemap_elem # rest)" by simp
    moreover have "index_pages_loop fetch domain (sitemap_elem # rest) all_pages =
        all_pages @ concat (map ?f (take 1 (sitemap_elem # rest)))"
      using res by simp
    moreover have "\<forall>j<(1::nat). length (all_pages @ concat (map ?f (take j (sitemap_elem # rest)))) < 300"
      using Cons.prems by simp
    moreover have "300 \<le> length (index_pages_loop fetch domain (sitemap_elem # rest) all_pages)"
      using res True by simp
    ultimately show ?thesis by blast
  next
    case False
    then have res: "index_pages_loop fetch domain (sitemap_elem # rest) all_pages =
        index_pages_loop fetch domain rest (all_pages @ ?c)"
      by (subst index_pages_loop_step) auto
    have short: "length (all_pages @ ?c) < 300"
    proof (cases "sub_document fetch sitemap_elem")
      case None
      then have "?c = []" by (simp add: real_sub_pages_def)
      with Cons.prems show ?thesis by simp
    next
      case (Some sub_xml)
      with False show ?thesis by simp
    qed
    from Cons.IH [OF short] obtain k where k: "k \<le> length rest"
      and eq: "index_pages_loop fetch domain rest (all_pages @ ?c) =
          (all_pages @ ?c) @ concat (map ?f (take k rest))"
      and before: "\<forall>j<k. length ((all_pages @ ?c) @ concat (map ?f (take j rest))) < 300"
      and full: "k < length rest \<longrightarrow>
          300 \<le> length (index_pages_loop fetch domain rest (all_pages @ ?c))"
      by blast
    have "Suc k \<le> length (sitemap_elem # rest)" using k by simp
    moreover have "index_pages_loop fetch domain (sitemap_elem # rest) all_pages =
        all_pages @ concat (map ?f (take (Suc k) (sitemap_elem # rest)))"
      using res eq by simp
    moreover have "\<forall>j<Suc k. length (all_pages @ concat (map ?f (take j (sitemap_elem # rest)))) < 300"
    proof (intro allI impI)
      fix j assume j: "j < Suc k"
      show "length (all_pages @ concat (map ?f (take j (sitemap_elem # rest)))) < 300"
      proof (cases j)
        case 0
        with Cons.prems show ?thesis by simp
      next
        case (Suc i)
        with j before show ?thesis by simp
      qed
    qed
    moreover have "Suc k < length (sitemap_elem # rest) \<longrightarrow>
        300 \<le> length (index_pages_loop fetch domain (sitemap_elem # rest) all_pages)"
      using full res by simp
    ultimately show ?thesis by blast
  qed
qed

lemma real_pages_loop_map_filter:
  "real_pages_loop domain url_elements pages = pages @ List.map_filter (real_page_of domain) url_elements"
  by (induction url_elements arbitrary: pages) (auto simp: map_filter_simps split: option.splits)

lemma map_filter_replicate:
  "f x = Some y \<Longrightarrow> List.map_filter f (replicate n x) = replicate n y"
  by (induction n) (simp_all add: map_filter_simps)

lemma findall_sample_urlset: "findall (ns ''url'') (sample_urlset us) = map sample_url_elem us"
  by (induction us) (simp_all add: findall_def sample_urlset_def sample_url_elem_def ns_def)

text \<open>
  Claim C8, as stated: the walk never holds more than the bound. The walk of
  phase3\_scaled\_processor.py adds all the pages of a sub-sitemap and tests the length
  afterwards: an index whose one sub-sitemap lists 301 pages gives 301 entries, over the
  bound of 300.
\<close>

theorem walk_exceeds_300:
  "length (parse_sitemap_index_for_real_pages sample_fetch
             (Some (sample_index [''https://example.com/sitemap-big.xml''])) ''example.com'')
     = 301"
proof -
  let ?e = "Elem (ns ''sitemap'') None
              [Elem (ns ''loc'') (Some ''https://example.com/sitemap-big.xml'') []]"
  let ?a = "''https://example.com/a''"
  have elems: "findall (ns ''sitemap'') (sample_index [''https://example.com/sitemap-big.xml'']) = [?e]"
    by (simp add: findall_def sample_index_def ns_def)
  have sub: "sub_document sample_fetch ?e = Some (Some (sample_urlset (replicate 301 ?a)))"
    by (simp add: sub_document_def find_xml_def findall_def ns_def sample_fetch_def)
  have "case real_page_of ''example.com'' (sample_url_elem ?a) of None \<Rightarrow> False | Some pg \<Rightarrow> True"
    by code_simp
  then obtain pg where pg: "real_page_of ''example.com'' (sample_url_elem ?a) = Some pg"
    by (cases "real_page_of ''example.com'' (sample_url_elem ?a)") auto
  have pages: "parse_sitemap_for_real_pages (Some (sample_urlset (replicate 301 ?a))) ''example.com''
      = replicate 301 pg"
    using map_filter_replicate
      [where f = "real_page_of ''example.com''" and x = "sample_url_elem ?a" and y = pg and n = 301,
       OF pg]
    by (simp add: parse_sitemap_for_real_pages_def findall_sample_urlset
        real_pages_loop_map_filter)
  have c: "real_sub_pages sample_fetch ''example.com'' ?e = replicate 301 pg"
    by (simp only: real_sub_pages_def sub pages option.case)
  have "index_pages_loop sample_fetch ''example.com'' [?e] [] = replicate 301 pg"
    by (subst index_pages_loop_step) (simp only: c sub, simp)
  then show ?thesis
    by (simp add: parse_sitemap_index_for_real_pages_def elems)
qed

text \<open>
  Claim C8, amended. With a bound \<open>limit_pages\<close> that is not negative,
  \<^verbatim>\<open>parse_company_real_pages\<close> returns at most \<open>limit_pages\<close> entries, and on an index
  they are the first \<open>limit_pages\<close> of the classified pages of the listed sub-sitemaps,
  in the order the index lists them. \<^verbatim>\<open>parse_sitemap_index_for_real_pages\<close> returns
  the pages of the first \<open>k\<close> of the first ten listed sub-sitemaps, in the order
  listed, where fewer than 300 entries were held before each of them was fetched, and it
  stops before the last of the ten only with 300 entries or more.
\<close>

theorem walk_bounds:
  "(0 \<le> limit_pages \<longrightarrow>
      int (length (parse_company_real_pages L fetch domain limit_pages)) \<le> limit_pages)
   \<and> (find_main_sitemap fetch domain = Some main_sitemap_url \<and>
       fetch main_sitemap_url = Response 200 (Some root) \<and>
       findall (ns ''sitemap'') root \<noteq> [] \<longrightarrow>
       parse_company_real_pages L fetch domain limit_pages =
         take (nat limit_pages)
           (concat (map (classified_sub_pages L fetch domain) (findall (ns ''sitemap'') root))))
   \<and> (\<exists>k \<le> length (take 10 (findall (ns ''sitemap'') root)).
         parse_sitemap_index_for_real_pages fetch (Some root) domain =
           concat (map (real_sub_pages fetch domain)
                     (take k (take 10 (findall (ns ''sitemap'') root))))
       \<and> (\<forall>j<k. length (concat (map (real_sub_pages fetch domain)
                                   (take j (take 10 (findall (ns ''sitemap'') root))))) < 300)
       \<and> (k < length (take 10 (findall (ns ''sitemap'') root)) \<longrightarrow>
            300 \<le> length (parse_sitemap_index_for_real_pages fetch (Some root) domain)))"
proof (intro conjI)
  show "0 \<le> limit_pages \<longrightarrow>
      int (length (parse_company_real_pages L fetch domain limit_pages)) \<le> limit_pages"
    using parse_company_real_pages_bound by blast
  show "find_main_sitemap fetch domain = Some main_sitemap_url \<and>
       fetch main_sitemap_url = Response 200 (Some root) \<and>
       findall (ns ''sitemap'') root \<noteq> [] \<longrightarrow>
       parse_company_real_pages L fetch domain limit_pages =
         take (nat limit_pages)
           (concat (map (classified_sub_pages L fetch domain) (findall (ns ''sitemap'') root)))"
    using parse_company_real_pages_index by blast
  show "\<exists>k \<le> length (take 10 (findall (ns ''sitemap'') root)).
         parse_sitemap_index_for_real_pages fetch (Some root) domain =
           concat (map (real_sub_pages fetch domain)
                     (take k (take 10 (findall (ns ''sitemap'') root))))
       \<and> (\<forall>j<k. length (concat (map (real_sub_pages fetch domain)
                                   (take j (take 10 (findall (ns ''sitemap'') root))))) < 300)
       \<and> (k < length (take 10 (findall (ns ''sitemap'') root)) \<longrightarrow>
            300 \<le> length (parse_sitemap_index_for_real_pages fetch (Some root) domain))"
    using index_pages_loop_prefix [of "[]" "take 10 (findall (ns ''sitemap'') root)" fetch domain]
    by (simp add: parse_sitemap_index_for_real_pages_def)
qed

theorem walk_bounds_witness:
  "int (length (parse_company_real_pages sample_lib sample_fetch ''example.com'' 2)) \<le> 2
   \<and> parse_company_real_pages sample_lib sample_fetch ''example.com'' 2 =
       take (nat 2)
         (concat (map (classified_sub_pages sample_lib sample_fetch ''example.com'')
            (findall (ns ''sitemap'')
               (sample_index [''https://example.com/sitemap-1.xml'',
                              ''https://example.com/sitemap-2.xml'',
                              ''https://example.com/sitemap-3.xml'']))))
   \<and> urls_of (parse_company_real_pages sample_lib sample_fetch ''example.com'' 2)
       = [Some (PyStr ''https://example.com/careers''), Some (PyStr ''https://example.com/about'')]
   \<and> urls_of (parse_company_real_pages sample_lib sample_fetch ''example.com'' 5)
       = [Some (PyStr ''https://example.com/careers''), Some (PyStr ''https://example.com/about''),
          Some (PyStr ''https://example.com/contact'')]
   \<and> urls_of
         (parse_sitemap_index_for_real_pages sample_fetch
            (Some (sample_index [''https://example.com/sitemap-1.xml'',
                                 ''https://example.com/sitemap-2.xml'',
                                 ''https://example.com/sitemap-3.xml'']))
            ''example.com'')
       = [Some (PyStr ''https://example.com/careers''), Some (PyStr ''https://example.com/about''),
          Some (PyStr ''https://example.com/contact'')]"
proof -
  let ?root = "sample_index [''https://example.com/sitemap-1.xml'',
                             ''https://example.com/sitemap-2.xml'',
                             ''https://example.com/sitemap-3.xml'']"
  note inst = walk_bounds [of 2 sample_lib sample_fetch "''example.com''"
      "''https://example.com/sitemap.xml''" ?root]
  have a: "int (length (parse_company_real_pages sample_lib sample_fetch ''example.com'' 2)) \<le> 2"
    using inst by simp
  have main: "find_main_sitemap sample_fetch ''example.com'' = Some ''https://example.com/sitemap.xml''"
    by code_simp
  have doc: "sample_fetch ''https://example.com/sitemap.xml'' = Response 200 (Some ?root)"
    by code_simp
  have idx: "findall (ns ''sitemap'') ?root \<noteq> []"
    by code_simp
  have e: "parse_company_real_pages sample_lib sample_fetch ''example.com'' 2 =
       take (nat 2)
         (concat (map (classified_sub_pages sample_lib sample_fetch ''example.com'')
            (findall (ns ''sitemap'') ?root)))"
    using inst main doc idx by blast
  have b: "urls_of (parse_company_real_pages sample_lib sample_fetch ''example.com'' 2)
       = [Some (PyStr ''https://example.com/careers''), Some (PyStr ''https://example.com/about'')]"
    by code_simp
  have c: "urls_of (parse_company_real_pages sample_lib sample_fetch ''example.com'' 5)
       = [Some (PyStr ''https://example.com/careers''), Some (PyStr ''https://example.com/about''),
          Some (PyStr ''https://example.com/contact'')]"
    by code_simp
  have d: "urls_of
         (parse_sitemap_index_for_real_pages sample_fetch
            (Some (sample_index [''https://example.com/sitemap-1.xml'',
                                 ''https://example.com/sitemap-2.xml'',
                                 ''https://example.com/sitemap-3.xml'']))
            ''example.com'')
       = [Some (PyStr ''https://example.com/careers''), Some (PyStr ''https://example.com/about''),
          Some (PyStr ''https://example.com/contact'')]"
    by code_simp
  show ?thesis by (intro conjI a e b c d)
qed

end
